theory Spec2Isabelle
  imports Main "HOL-Library.AList" "HOL-Library.Char_ord" "HOL-Library.List_Lexorder"
begin

section \<open>The wgpu-py code generator (codegen-script.py)\<close>

text \<open>
  The script cross-checks two parsed catalogs (\<open>ip\<close>, from webgpu.idl, and \<open>hp\<close>, from
  wgpu.h), builds the table \<open>enummap\<close>, writes three generated modules and patches two
  hand-written modules.  The parsers (\<open>wgpu._parsers\<close>) and the formatter (the program
  \<open>black\<close>) are not part of the script: the catalogs are inputs of the functions below, and
  the formatter is a function from its standard input to its two output streams.

  Python strings are modelled as HOL strings.  The case and whitespace predicates below are
  those of Python on ASCII text, which is what the two descriptor files and the patched
  modules contain; a character outside ASCII is caseless and no whitespace here.
  A Python dict is an association list in insertion order; a dict has one entry per key
  (\<open>distinct (map fst d)\<close>).
\<close>

subsection \<open>Python string methods\<close>

type_synonym 'v dict = "(string \<times> 'v) list"

definition ascii_uppercase :: string where
  "ascii_uppercase = ''ABCDEFGHIJKLMNOPQRSTUVWXYZ''"

definition ascii_lowercase :: string where
  "ascii_lowercase = ''abcdefghijklmnopqrstuvwxyz''"

text \<open>\<open>str.lower\<close> and \<open>str.upper\<close> on one ASCII character.\<close>

definition lower_char :: "char \<Rightarrow> char" where
  "lower_char c =
     (case map_of (zip ascii_uppercase ascii_lowercase) c of Some d \<Rightarrow> d | None \<Rightarrow> c)"

definition upper_char :: "char \<Rightarrow> char" where
  "upper_char c =
     (case map_of (zip ascii_lowercase ascii_uppercase) c of Some d \<Rightarrow> d | None \<Rightarrow> c)"

definition is_cased :: "char \<Rightarrow> bool" where
  "is_cased c = (c \<in> set ascii_uppercase \<or> c \<in> set ascii_lowercase)"

text \<open>\<open>str.isspace\<close> on one ASCII character: tab, line feed, vertical tab, form feed,
  carriage return, the four separators 0x1C..0x1F and the space.\<close>

definition is_space :: "char \<Rightarrow> bool" where
  "is_space c = (c \<in> set [CHR 0x09, CHR 0x0A, CHR 0x0B, CHR 0x0C, CHR 0x0D,
                            CHR 0x1C, CHR 0x1D, CHR 0x1E, CHR 0x1F, CHR 0x20])"

definition lower :: "string \<Rightarrow> string" where
  "lower s = map lower_char s"

text \<open>\<open>str.title\<close> on ASCII text: a cased character is upper-cased when the character before it is not
  cased (or there is none) and lower-cased otherwise.\<close>

fun title_from :: "bool \<Rightarrow> string \<Rightarrow> string" where
  "title_from previous_is_cased [] = []"
| "title_from previous_is_cased (c # cs) =
     (if previous_is_cased then lower_char c else upper_char c) # title_from (is_cased c) cs"

definition title :: "string \<Rightarrow> string" where
  "title s = title_from False s"

definition startswith :: "string \<Rightarrow> string \<Rightarrow> bool" where
  "startswith s p = (take (length p) s = p)"

definition endswith :: "string \<Rightarrow> string \<Rightarrow> bool" where
  "endswith s p = (length p \<le> length s \<and> drop (length s - length p) s = p)"

text \<open>\<open>sub in s\<close> for strings.\<close>

fun contains :: "string \<Rightarrow> string \<Rightarrow> bool" where
  "contains sub [] = (sub = [])"
| "contains sub (c # cs) = (startswith (c # cs) sub \<or> contains sub cs)"

text \<open>\<open>s.replace(old, new)\<close>: the occurrences of \<open>old\<close> are replaced from left to right,
  without overlap.  With an empty \<open>old\<close> Python puts \<open>new\<close> before every character and at
  the end.\<close>

function replace_from :: "string \<Rightarrow> string \<Rightarrow> string \<Rightarrow> string" where
  "replace_from old new s =
     (if s = [] \<or> old = [] then s
      else if startswith s old then new @ replace_from old new (drop (length old) s)
      else hd s # replace_from old new (tl s))"
  by pat_completeness auto
termination
  by (relation "measure (\<lambda>(old, new, s). length s)") (auto simp: startswith_def)

definition replace :: "string \<Rightarrow> string \<Rightarrow> string \<Rightarrow> string" where
  "replace old new s =
     (if old = [] then new @ concat (map (\<lambda>c. c # new) s) else replace_from old new s)"

definition lstrip :: "string \<Rightarrow> string" where
  "lstrip s = dropWhile is_space s"

definition rstrip :: "string \<Rightarrow> string" where
  "rstrip s = rev (dropWhile is_space (rev s))"

definition strip :: "string \<Rightarrow> string" where
  "strip s = rstrip (lstrip s)"

text \<open>\<open>sep.join(xs)\<close>.\<close>

fun join :: "string \<Rightarrow> string list \<Rightarrow> string" where
  "join sep [] = []"
| "join sep [x] = x"
| "join sep (x # y # ys) = x @ sep @ join sep (y # ys)"

subsection \<open>The report sink\<close>

text \<open>
  The script redefines \<open>print\<close> (lines 53 to 59): the text goes to standard output and to the report file,
  there after the extra first argument \<open>"* "\<close> (so after \<open>"* "\<close> and the separating space)
  unless the text is a heading.  Every call of the script passes one string.
\<close>

record sink =
  stdout :: "string list"
  report_file :: "string list"

definition report_line :: "string \<Rightarrow> string" where
  "report_line x = (if startswith (lstrip x) ''#'' then x else ''* '' @ '' '' @ x)"

definition print :: "string \<Rightarrow> sink \<Rightarrow> sink" where
  "print x snk =
     snk\<lparr>stdout := stdout snk @ [x], report_file := report_file snk @ [report_line x]\<rparr>"

subsection \<open>Comparing the enumerations and building enummap\<close>

text \<open>
  The loop of lines 118 to 128.  \<open>hp.enums\<close> maps an enumeration name to a dict from
  member name to integer code, \<open>ip.enums\<close> maps it to a dict from attribute name to the
  member's string value.  The loop runs over the entries of \<open>hp.enums\<close>: for a dict,
  \<open>for name in hp.enums\<close> with \<open>hp.enums[name]\<close> in its body is that.
\<close>

definition enum_hkey :: "string \<Rightarrow> string" where
  "enum_hkey ikey =
     replace '' '' [] (title (replace ''-'' '' ''
       (replace ''3d'' ''D3'' (replace ''2d'' ''D2'' (replace ''1d'' ''D1'' ikey)))))"

definition enummap_member ::
  "string \<Rightarrow> int dict \<Rightarrow> string \<Rightarrow> int dict \<times> sink \<Rightarrow> int dict \<times> sink" where
  "enummap_member name henum ikey st =
     (case map_of henum (enum_hkey ikey) of
        Some code \<Rightarrow> (AList.update (name @ ''.'' @ ikey) code (fst st), snd st)
      | None \<Rightarrow> (fst st, print (name @ ''.'' @ ikey @ '' is missing'') (snd st)))"

definition enummap_enum ::
  "(string dict) dict \<Rightarrow> string \<times> int dict \<Rightarrow> int dict \<times> sink \<Rightarrow> int dict \<times> sink" where
  "enummap_enum ip_enums entry st =
     (case map_of ip_enums (fst entry) of
        None \<Rightarrow> st
      | Some ienum \<Rightarrow> fold (enummap_member (fst entry) (snd entry)) (map snd ienum) st)"

definition enummap_loop ::
  "(int dict) dict \<Rightarrow> (string dict) dict \<Rightarrow> int dict \<times> sink \<Rightarrow> int dict \<times> sink" where
  "enummap_loop hp_enums ip_enums st = fold (enummap_enum ip_enums) hp_enums st"

text \<open>The assignments \<open>enummap[key] = code\<close> of the loop, in the order they are made.\<close>

definition enummap_assignments :: "(int dict) dict \<Rightarrow> (string dict) dict \<Rightarrow> int dict" where
  "enummap_assignments hp_enums ip_enums =
     concat (map (\<lambda>entry.
       case map_of ip_enums (fst entry) of
         None \<Rightarrow> []
       | Some ienum \<Rightarrow>
           concat (map (\<lambda>ikey.
             case map_of (snd entry) (enum_hkey ikey) of
               Some code \<Rightarrow> [(fst entry @ ''.'' @ ikey, code)]
             | None \<Rightarrow> []) (map snd ienum))) hp_enums)"

text \<open>The members the loop reports as missing, in the order they are reported.\<close>

definition enummap_missing :: "(int dict) dict \<Rightarrow> (string dict) dict \<Rightarrow> string list" where
  "enummap_missing hp_enums ip_enums =
     concat (map (\<lambda>entry.
       case map_of ip_enums (fst entry) of
         None \<Rightarrow> []
       | Some ienum \<Rightarrow>
           concat (map (\<lambda>ikey.
             case map_of (snd entry) (enum_hkey ikey) of
               Some code \<Rightarrow> []
             | None \<Rightarrow> [fst entry @ ''.'' @ ikey]) (map snd ienum))) hp_enums)"

subsection \<open>Matching a function identifier\<close>

text \<open>
  \<open>get_func_id_match(func_id, d)\<close> (lines 285 to 290) tries three identifiers in order and
  returns the first that is a key of \<open>d\<close>; a Python function that ends without \<open>return\<close>
  gives \<open>None\<close>.
\<close>

definition func_id_tries :: "string \<Rightarrow> string list" where
  "func_id_tries func_id = [func_id, replace ''async'' [] func_id, func_id @ ''async'']"

fun first_key_in :: "string list \<Rightarrow> 'v dict \<Rightarrow> string option" where
  "first_key_in [] d = None"
| "first_key_in (func_id_try # rest) d =
     (if func_id_try \<in> set (map fst d) then Some func_id_try else first_key_in rest d)"

definition get_func_id_match :: "string \<Rightarrow> 'v dict \<Rightarrow> string option" where
  "get_func_id_match func_id d = first_key_in (func_id_tries func_id) d"

subsection \<open>Comparing the structures\<close>

text \<open>
  \<open>repr\<close> of an ASCII string, as \<open>str\<close> of a list prints its elements: single quotes, or
  double quotes when the text has a single quote and no double quote; the quote and the
  backslash escaped; tab, line feed and carriage return as \<open>\t\<close>, \<open>\n\<close>, \<open>\r\<close>; any other
  control character as \<open>\xNN\<close>.
\<close>

definition hex_digit :: "nat \<Rightarrow> char" where
  "hex_digit n = ''0123456789abcdef'' ! (n mod 16)"

definition repr_char :: "char \<Rightarrow> char \<Rightarrow> string" where
  "repr_char quote c =
     (if c = quote \<or> c = CHR 0x5C then [CHR 0x5C, c]
      else if c = CHR 0x09 then [CHR 0x5C, CHR ''t'']
      else if c = CHR 0x0A then [CHR 0x5C, CHR ''n'']
      else if c = CHR 0x0D then [CHR 0x5C, CHR ''r'']
      else if (of_char c :: nat) < 32 \<or> (of_char c :: nat) = 127
        then [CHR 0x5C, CHR ''x'', hex_digit (of_char c div 16), hex_digit (of_char c)]
      else [c])"

definition repr_str :: "string \<Rightarrow> string" where
  "repr_str s =
     (let quote = (if CHR 0x27 \<in> set s \<and> CHR 0x22 \<notin> set s then CHR 0x22 else CHR 0x27)
      in [quote] @ concat (map (repr_char quote) s) @ [quote])"

definition str_list :: "string list \<Rightarrow> string" where
  "str_list xs = ''['' @ join '', '' (map repr_str xs) @ '']''"

text \<open>
  The third loop over \<open>hp.structs\<close> (lines 137 to 149): the two sets of normalised field
  names are compared, and three texts are printed when they differ.  Only the keys of a
  structure are read.
\<close>

definition struct_keys3 :: "string list \<Rightarrow> string set" where
  "struct_keys3 keys1 =
     set (map (\<lambda>key. replace ''_'' [] (replace ''_length'' [] (lower key))) keys1) - {''todo''}"

definition struct_keys4 :: "string list \<Rightarrow> string set" where
  "struct_keys4 keys2 = set (map lower keys2) - {''label''}"

definition compare_struct :: "('b dict) dict \<Rightarrow> string \<times> 'a dict \<Rightarrow> sink \<Rightarrow> sink" where
  "compare_struct ip_structs entry snk =
     (case map_of ip_structs (fst entry) of
        None \<Rightarrow> snk
      | Some istruct \<Rightarrow>
          (let keys1 = map fst (snd entry); keys2 = map fst istruct
           in if struct_keys3 keys1 \<noteq> struct_keys4 keys2
              then print (''i: '' @ str_list keys2)
                     (print (''c: '' @ str_list keys1) (print ('' '' @ fst entry) snk))
              else snk))"

definition compare_structs :: "('a dict) dict \<Rightarrow> ('b dict) dict \<Rightarrow> sink \<Rightarrow> sink" where
  "compare_structs hp_structs ip_structs snk = fold (compare_struct ip_structs) hp_structs snk"

text \<open>The texts one structure of \<open>hp.structs\<close> makes the loop print.\<close>

definition struct_report :: "('b dict) dict \<Rightarrow> string \<times> 'a dict \<Rightarrow> string list" where
  "struct_report ip_structs entry =
     (case map_of ip_structs (fst entry) of
        None \<Rightarrow> []
      | Some istruct \<Rightarrow>
          if struct_keys3 (map fst (snd entry)) \<noteq> struct_keys4 (map fst istruct)
          then ['' '' @ fst entry, ''c: '' @ str_list (map fst (snd entry)),
                ''i: '' @ str_list (map fst istruct)]
          else [])"

subsection \<open>The formatting step\<close>

text \<open>
  \<open>str.split(sep)\<close> and \<open>str.split(sep, maxsplit)\<close> for a separator that is not empty (every
  separator of the script is a literal): \<open>cur\<close> is the piece being read.
\<close>

function split_from :: "string \<Rightarrow> nat option \<Rightarrow> string \<Rightarrow> string \<Rightarrow> string list" where
  "split_from sep maxsplit cur s =
     (if s = [] then [cur]
      else if sep \<noteq> [] \<and> maxsplit \<noteq> Some 0 \<and> startswith s sep
        then cur # split_from sep (map_option (\<lambda>n. n - 1) maxsplit) [] (drop (length sep) s)
      else split_from sep maxsplit (cur @ [hd s]) (tl s))"
  by pat_completeness auto
termination
  by (relation "measure (\<lambda>(sep, maxsplit, cur, s). length s)") auto

definition split_sep :: "string \<Rightarrow> string \<Rightarrow> string list" where
  "split_sep sep s = split_from sep None [] s"

definition split_sep_max :: "string \<Rightarrow> nat \<Rightarrow> string \<Rightarrow> string list" where
  "split_sep_max sep maxsplit s = split_from sep (Some maxsplit) [] s"

text \<open>\<open>str.splitlines\<close> on ASCII text: a line ends at line feed, carriage return (with a
  line feed after it, if any), vertical tab, form feed or one of the separators
  0x1C..0x1E; the text after the last line break is a line when it is not empty.\<close>

definition is_linebreak :: "char \<Rightarrow> bool" where
  "is_linebreak c =
     (c \<in> set [CHR 0x0A, CHR 0x0B, CHR 0x0C, CHR 0x0D, CHR 0x1C, CHR 0x1D, CHR 0x1E])"

fun splitlines_from :: "string \<Rightarrow> string \<Rightarrow> string list" where
  "splitlines_from cur [] = (if cur = [] then [] else [cur])"
| "splitlines_from cur [c] = (if is_linebreak c then [cur] else [cur @ [c]])"
| "splitlines_from cur (c # d # cs) =
     (if c = CHR 0x0D \<and> d = CHR 0x0A then cur # splitlines_from [] cs
      else if is_linebreak c then cur # splitlines_from [] (d # cs)
      else splitlines_from (cur @ [c]) (d # cs))"

definition splitlines :: "string \<Rightarrow> string list" where
  "splitlines s = splitlines_from [] s"

text \<open>
  The errors that end a run.  \<open>RuntimeError\<close> carries the formatter's log, \<open>KeyError\<close> the
  key that is missing.
\<close>

datatype error =
  RuntimeError string | AssertionError | KeyError string | IndexError | TypeError | AttributeError

text \<open>
  The formatter is the program \<open>black\<close>, run as \<open>black -l ll -\<close>: from the line length and
  its standard input to its standard output and its standard error.  \<open>blacken\<close> is the
  function of lines 25 to 50.
\<close>

type_synonym formatter = "nat \<Rightarrow> string \<Rightarrow> string \<times> string"

definition remove_noqas :: "string \<Rightarrow> string" where
  "remove_noqas src =
     join [CHR 0x0A] (map (\<lambda>line. hd (split_sep ''# noqa:'' line)) (splitlines src))"

definition join_signatures :: "string \<Rightarrow> string" where
  "join_signatures result =
     replace ('','' @ [CHR 0x0A] @ ''    ):'' @ [CHR 0x0A]) (''):'' @ [CHR 0x0A])
       (replace (''('' @ [CHR 0x0A] @ ''        self'') ''(self'' result)"

definition blacken :: "formatter \<Rightarrow> string \<Rightarrow> bool \<Rightarrow> error + string" where
  "blacken black src singleline =
     (let src1 = (if singleline then remove_noqas src else src);
          ll = (if singleline then 9999999 else 88);
          result = fst (black ll src1);
          log = snd (black ll src1)
      in if contains ''error'' (lower log) then Inl (RuntimeError log)
         else Inr (if singleline then join_signatures result else result))"

text \<open>A formatter that returns its input and writes black's usual notice to standard
  error.\<close>

definition quiet_black :: formatter where
  "quiet_black ll src = (src, ''reformatted -'')"

text \<open>A formatter that cannot parse its input: no output, and black's message on standard
  error.\<close>

definition failing_black :: formatter where
  "failing_black ll src = ([], ''error: cannot format -: Cannot parse: 1:0: x ='')"

subsection \<open>The generated containers Flags and Enum\<close>

text \<open>
  The classes \<open>Flags\<close> and \<open>Enum\<close> are text of the two preambles (lines 164 to 176 and
  207 to 221); flags.py and enums.py
  call them as \<open>Name = Flags("Name", KEY=val, ...)\<close>, the keyword arguments in the order
  of the catalog entry.  An instance is its attribute dict.  \<open>__init__\<close> stores the name
  under \<open>_name\<close> and then every keyword argument with \<open>setattr\<close>; Python refuses to set
  \<open>__class__\<close> and \<open>__dict__\<close> to a number or a string and has no writable \<open>__weakref__\<close>.
\<close>

datatype 'v attribute = Name string | Member 'v | ClassAttribute string

type_synonym 'v object = "(string \<times> 'v attribute) list"

definition setattr :: "string \<Rightarrow> 'v attribute \<Rightarrow> 'v object \<Rightarrow> error + 'v object" where
  "setattr key val self =
     (if key = ''__class__'' \<or> key = ''__dict__'' then Inl TypeError
      else if key = ''__weakref__'' then Inl AttributeError
      else Inr (AList.update key val self))"

fun setattrs :: "'v dict \<Rightarrow> 'v object \<Rightarrow> error + 'v object" where
  "setattrs [] self = Inr self"
| "setattrs (kv # kwargs) self =
     (case setattr (fst kv) (Member (snd kv)) self of
        Inl e \<Rightarrow> Inl e
      | Inr self1 \<Rightarrow> setattrs kwargs self1)"

definition container_init :: "string \<Rightarrow> 'v dict \<Rightarrow> error + 'v object" where
  "container_init name kwargs = setattrs kwargs [(''_name'', Name name)]"

text \<open>
  \<open>dir(self)\<close> is the sorted list of the names of the instance, of its class and of
  \<open>object\<close>.  The names a class with the three methods \<open>__init__\<close>, \<open>__iter__\<close> and
  \<open>__repr__\<close> has (CPython 3.8):
\<close>

definition class_dir :: "string list" where
  "class_dir =
     [''__class__'', ''__delattr__'', ''__dict__'', ''__dir__'', ''__doc__'', ''__eq__'',
      ''__format__'', ''__ge__'', ''__getattribute__'', ''__gt__'', ''__hash__'', ''__init__'',
      ''__init_subclass__'', ''__iter__'', ''__le__'', ''__lt__'', ''__module__'', ''__ne__'',
      ''__new__'', ''__reduce__'', ''__reduce_ex__'', ''__repr__'', ''__setattr__'',
      ''__sizeof__'', ''__str__'', ''__subclasshook__'', ''__weakref__'']"

definition dir_names :: "'v object \<Rightarrow> string list" where
  "dir_names self = sort (remdups (class_dir @ map fst self))"

definition getattr :: "'v object \<Rightarrow> string \<Rightarrow> error + 'v attribute" where
  "getattr self key =
     (case map_of self key of
        Some val \<Rightarrow> Inr val
      | None \<Rightarrow> if key \<in> set class_dir then Inr (ClassAttribute key) else Inl AttributeError)"

fun getattrs :: "'v object \<Rightarrow> string list \<Rightarrow> error + 'v attribute list" where
  "getattrs self [] = Inr []"
| "getattrs self (key # keys) =
     (case getattr self key of
        Inl e \<Rightarrow> Inl e
      | Inr val \<Rightarrow> (case getattrs self keys of Inl e \<Rightarrow> Inl e | Inr vals \<Rightarrow> Inr (val # vals)))"

text \<open>\<open>Flags.__iter__\<close> and \<open>Enum.__iter__\<close>: the list the iterator runs over.\<close>

definition Flags_iter :: "'v object \<Rightarrow> string list" where
  "Flags_iter self = filter (\<lambda>key. \<not> startswith key ''_'') (dir_names self)"

definition Enum_iter :: "'v object \<Rightarrow> error + 'v attribute list" where
  "Enum_iter self = getattrs self (filter (\<lambda>key. \<not> startswith key ''_'') (dir_names self))"

subsection \<open>The generated modules\<close>

text \<open>\<open>str\<close> and \<open>repr\<close> of an integer.\<close>

function str_nat :: "nat \<Rightarrow> string" where
  "str_nat n = (if n < 10 then [hex_digit n] else str_nat (n div 10) @ [hex_digit (n mod 10)])"
  by pat_completeness auto
termination
  by (relation "measure (\<lambda>n. n)") auto

definition repr_int :: "int \<Rightarrow> string" where
  "repr_int i = (if i < 0 then ''-'' @ str_nat (nat (- i)) else str_nat (nat i))"

text \<open>
  The lines the script appends to \<open>pylines\<close> for one flag set (lines 183 to 187) and for
  one enumeration (lines 228 to 232); the first and the last hold a line break.
\<close>

definition flags_pylines :: "string \<times> int dict \<Rightarrow> string list" where
  "flags_pylines entry =
     [fst entry @ '' = Flags('' @ [CHR 0x0A] @ ''    '' @ [CHR 0x22] @ fst entry @ [CHR 0x22] @ '',''] @
     map (\<lambda>kv. ''    '' @ fst kv @ ''='' @ repr_int (snd kv) @ '','') (snd entry) @
     ['')'' @ [CHR 0x0A]]"

definition enums_pylines :: "string \<times> string dict \<Rightarrow> string list" where
  "enums_pylines entry =
     [fst entry @ '' = Enum('' @ [CHR 0x0A] @ ''    '' @ [CHR 0x22] @ fst entry @ [CHR 0x22] @ '',''] @
     map (\<lambda>kv. ''    '' @ fst kv @ ''='' @ [CHR 0x22] @ snd kv @ [CHR 0x22] @ '','') (snd entry) @
     ['')'' @ [CHR 0x0A]]"

subsection \<open>Patching the hand-written modules\<close>

text \<open>
  Python's indexing and dict lookup, with the exceptions they raise, and the sequencing of
  steps that may raise.
\<close>

definition bind :: "error + 'a \<Rightarrow> ('a \<Rightarrow> error + 'b) \<Rightarrow> error + 'b" where
  "bind m f = (case m of Inl e \<Rightarrow> Inl e | Inr x \<Rightarrow> f x)"

fun traverse :: "('a \<Rightarrow> error + 'b) \<Rightarrow> 'a list \<Rightarrow> error + 'b list" where
  "traverse f [] = Inr []"
| "traverse f (x # xs) = bind (f x) (\<lambda>y. bind (traverse f xs) (\<lambda>ys. Inr (y # ys)))"

text \<open>\<open>xs[i]\<close> for \<open>i \<ge> 0\<close>, \<open>xs[-1]\<close>, \<open>xs[-2]\<close> and \<open>d[key]\<close>.\<close>

definition py_get :: "'a list \<Rightarrow> nat \<Rightarrow> error + 'a" where
  "py_get xs i = (if i < length xs then Inr (xs ! i) else Inl IndexError)"

definition py_last :: "'a list \<Rightarrow> error + 'a" where
  "py_last xs = (if xs = [] then Inl IndexError else Inr (last xs))"

definition py_last2 :: "'a list \<Rightarrow> error + 'a" where
  "py_last2 xs = (if length xs < 2 then Inl IndexError else Inr (xs ! (length xs - 2)))"

definition py_lookup :: "'v dict \<Rightarrow> string \<Rightarrow> error + 'v" where
  "py_lookup d key = (case map_of d key of None \<Rightarrow> Inl (KeyError key) | Some v \<Rightarrow> Inr v)"

text \<open>\<open>xs.insert(i, x)\<close> for \<open>i \<ge> 0\<close>; past the end it appends.\<close>

definition list_insert :: "nat \<Rightarrow> 'a \<Rightarrow> 'a list \<Rightarrow> 'a list" where
  "list_insert i x xs = take i xs @ x # drop i xs"

text \<open>\<open>s.split()\<close>: the pieces between runs of whitespace.\<close>

fun split_ws_from :: "string \<Rightarrow> string \<Rightarrow> string list" where
  "split_ws_from cur [] = (if cur = [] then [] else [cur])"
| "split_ws_from cur (c # cs) =
     (if is_space c then (if cur = [] then [] else [cur]) @ split_ws_from [] cs
      else split_ws_from (cur @ [c]) cs)"

definition split_ws :: "string \<Rightarrow> string list" where
  "split_ws s = split_ws_from [] s"

text \<open>
  A field of a structure of \<open>ip.structs\<close>.  The class is in \<open>wgpu._parsers\<close>; the script
  reads \<open>name\<close> and \<open>typename\<close> and calls \<open>py_arg()\<close>, whose result is kept here as data.
\<close>

record field =
  field_name :: string
  field_typename :: string
  field_py_arg :: string

text \<open>An entry of \<open>api_functions\<close>: \<open>func_id\<close> and the tuple \<open>funcname, i, indent\<close>.\<close>

type_synonym api_function = "string \<times> string \<times> nat \<times> nat"

text \<open>
  The lines to scan (lines 297 to 304): the module as black prints it with one line per
  signature, without the lines that start with one of the two markers, every line
  stripped at the right, and an empty line at the end.
\<close>

definition is_marker_line :: "string \<Rightarrow> bool" where
  "is_marker_line line =
     (startswith (lstrip line) ''# IDL: '' \<or> startswith (lstrip line) ''# wgpu.help('')"

definition scan_lines :: "string \<Rightarrow> string list" where
  "scan_lines text = map rstrip (filter (\<lambda>line. \<not> is_marker_line line) (splitlines text)) @ [[]]"

text \<open>
  Detecting the api functions (lines 307 to 322): one step of the loop over
  \<open>enumerate(api_lines)\<close>.  The
  state is \<open>current_class\<close> (\<open>None\<close> before the first class) and \<open>api_functions\<close>.  Adding the
  class name to the name of an indented function raises \<open>TypeError\<close> while \<open>current_class\<close>
  is \<open>None\<close>; \<open>api_lines[i - 1]\<close> is the last line when \<open>i = 0\<close>.
\<close>

definition detect_line ::
  "string list \<Rightarrow> nat \<Rightarrow> string option \<times> (string \<times> nat \<times> nat) dict \<Rightarrow>
     error + string option \<times> (string \<times> nat \<times> nat) dict" where
  "detect_line api_lines i st =
     (let line = api_lines ! i in
      bind (if startswith line ''class ''
            then bind (py_last (split_ws (hd (split_sep ''('' (hd (split_sep '':'' line))))))
                   (\<lambda>c. Inr (Some c))
            else Inr (fst st))
        (\<lambda>current_class.
          if startswith (lstrip line) ''def '' \<or> startswith (lstrip line) ''async def''
          then
            (let indent = length line - length (lstrip line) in
             bind (py_last (split_ws (hd (split_sep ''('' line))))
               (\<lambda>funcname.
                 if \<not> startswith funcname ''_'' \<and>
                    \<not> startswith
                        (lstrip (if i = 0 then last api_lines else api_lines ! (i - 1)))
                        ''@property''
                 then
                   bind (if indent \<noteq> 0
                         then (case current_class of
                                 None \<Rightarrow> Inl TypeError
                               | Some c \<Rightarrow> Inr (c @ ''.'' @ funcname))
                         else Inr funcname)
                     (\<lambda>funcname.
                       (let func_id = lower (replace ''.'' [] funcname);
                            func_id = (if startswith funcname ''GPU'' then drop 3 func_id
                                       else func_id)
                        in Inr (current_class,
                                AList.update func_id (funcname, i, indent) (snd st))))
                 else Inr (current_class, snd st)))
          else Inr (current_class, snd st)))"

fun detect_loop ::
  "string list \<Rightarrow> nat list \<Rightarrow> string option \<times> (string \<times> nat \<times> nat) dict \<Rightarrow>
     error + string option \<times> (string \<times> nat \<times> nat) dict" where
  "detect_loop api_lines [] st = Inr st"
| "detect_loop api_lines (i # is) st =
     bind (detect_line api_lines i st) (detect_loop api_lines is)"

definition detect_api_functions :: "string list \<Rightarrow> error + (string \<times> nat \<times> nat) dict" where
  "detect_api_functions api_lines =
     bind (detect_loop api_lines [0..<length api_lines] (None, [])) (\<lambda>st. Inr (snd st))"

text \<open>
  The parameters of an IDL declaration \<open>line\<close> (lines 334 to 336): the text between the
  first \<open>(\<close> and the
  next \<open>)\<close>, split at the commas, without the blank pieces; of each the part before \<open>=\<close>,
  whose last word is the name and whose last word but one is the type.
\<close>

definition idl_args :: "string \<Rightarrow> error + string list" where
  "idl_args line =
     bind (py_get (split_sep_max ''('' 1 line) 1)
       (\<lambda>rest. Inr (filter (\<lambda>arg. strip arg \<noteq> [])
                       (split_sep '','' (hd (split_sep_max '')'' 1 rest)))))"

definition idl_argnames :: "string list \<Rightarrow> error + string list" where
  "idl_argnames args = traverse (\<lambda>arg. py_last (split_ws (hd (split_sep ''='' arg)))) args"

definition idl_argtypes :: "string list \<Rightarrow> error + string list" where
  "idl_argtypes args = traverse (\<lambda>arg. py_last2 (split_ws (hd (split_sep ''='' arg)))) args"

text \<open>
  The parameter list written for a declaration with the parameter types \<open>argtypes\<close>
  (lines 340 to 352).
  With one parameter of an Options or Descriptor type the fields of the structure are
  listed, after the assertion on the prefix and the lookup in \<open>ip.structs\<close>.
\<close>

definition signature_args ::
  "(field dict) dict \<Rightarrow> string \<Rightarrow> string list \<Rightarrow> string list \<Rightarrow> error + string list" where
  "signature_args ip_structs func_id argnames argtypes =
     (if length argtypes = 1 \<and>
         (endswith (argtypes ! 0) ''Options'' \<or> endswith (argtypes ! 0) ''Descriptor'')
      then
        if \<not> startswith (argtypes ! 0) ''GPU'' then Inl AssertionError
        else
          bind (py_lookup ip_structs (drop 3 (argtypes ! 0)))
            (\<lambda>arg_struct.
              (let py_args = map (\<lambda>kv. field_py_arg (snd kv)) arg_struct in
               bind (py_get py_args 0)
                 (\<lambda>first.
                   (let py_args = (if first = ''label: str''
                                   then py_args[0 := ''label='' @ [CHR 0x22, CHR 0x22]]
                                   else py_args)
                    in Inr ((if contains ''requestadapter'' func_id then [''*'']
                             else [''self'', ''*'']) @ py_args)))))
      else Inr ([''self''] @ argnames))"

text \<open>
  One step of the loop that injects the IDL definitions (lines 326 to 359), for an entry
  of \<open>api_functions\<close>; the state is \<open>api_lines\<close> and \<open>count\<close>.  The loop takes the entries
  in reverse order.  A match that is \<open>None\<close> or the
  empty string is false for \<open>if func_id_match\<close>.
\<close>

definition inject ::
  "string \<Rightarrow> string dict \<Rightarrow> (field dict) dict \<Rightarrow> api_function \<Rightarrow> string list \<times> nat \<Rightarrow>
     error + string list \<times> nat" where
  "inject fname ip_functions ip_structs entry st =
     (case get_func_id_match (fst entry) ip_functions of
        None \<Rightarrow> Inr st
      | Some func_id_match \<Rightarrow>
          if func_id_match = [] then Inr st
          else
            (let func_id = fst entry; funcname = fst (snd entry);
                 i = fst (snd (snd entry)); indent = snd (snd (snd entry));
                 api_lines = fst st; count = snd st + 1
             in
             bind (py_lookup ip_functions func_id_match) (\<lambda>line.
             bind (py_get api_lines i) (\<lambda>pyline.
             bind (idl_args line) (\<lambda>args.
             bind (idl_argnames args) (\<lambda>argnames.
             bind (idl_argtypes args) (\<lambda>argtypes.
               (let searches =
                      map (\<lambda>x. [CHR 0x27] @ x @ [CHR 0x27])
                        ([func_id_match] @
                         map (drop 3) (filter (\<lambda>arg. startswith arg ''GPU'') argtypes))
                in
                bind (signature_args ip_structs func_id argnames argtypes) (\<lambda>py_args.
                  (let api_lines =
                         api_lines[i := hd (split_sep ''('' pyline) @ ''('' @
                                         join '', '' py_args @ ''):''];
                       api_lines =
                         (if fname = ''base.py''
                          then list_insert i (replicate indent CHR '' '' @ ''# IDL: '' @ line)
                                 api_lines
                          else api_lines);
                       api_lines =
                         list_insert i
                           (replicate indent CHR '' '' @ ''# wgpu.help('' @
                              join '', '' searches @ '', dev=True)'')
                           api_lines
                   in Inr (api_lines, count)))))))))))"

fun inject_loop ::
  "string \<Rightarrow> string dict \<Rightarrow> (field dict) dict \<Rightarrow> api_function list \<Rightarrow> string list \<times> nat \<Rightarrow>
     error + string list \<times> nat" where
  "inject_loop fname ip_functions ip_structs [] st = Inr st"
| "inject_loop fname ip_functions ip_structs (entry # entries) st =
     bind (inject fname ip_functions ip_structs entry st)
       (inject_loop fname ip_functions ip_structs entries)"

definition inject_idl ::
  "string \<Rightarrow> string dict \<Rightarrow> (field dict) dict \<Rightarrow> (string \<times> nat \<times> nat) dict \<Rightarrow> string list \<Rightarrow>
     error + string list \<times> nat" where
  "inject_idl fname ip_functions ip_structs api_functions api_lines =
     inject_loop fname ip_functions ip_structs (rev api_functions) (api_lines, 0)"

text \<open>The report on the functions (lines 362 to 369): the count, then the two loops.\<close>

definition no_match :: "string \<Rightarrow> 'v dict \<Rightarrow> bool" where
  "no_match func_id d =
     (case get_func_id_match func_id d of None \<Rightarrow> True | Some m \<Rightarrow> m = [])"

definition report_missing ::
  "string dict \<Rightarrow> (string \<times> nat \<times> nat) dict \<Rightarrow> nat \<Rightarrow> sink \<Rightarrow> sink" where
  "report_missing ip_functions api_functions count snk =
     fold print
       ([''Found '' @ str_nat count @ '' functions already implemented''] @
        map (\<lambda>kv. ''Not implemented: '' @ snd kv)
          (filter (\<lambda>kv. no_match (fst kv) api_functions) ip_functions) @
        map (\<lambda>entry. ''Found unknown function '' @ fst (snd entry))
          (filter (\<lambda>entry. no_match (fst entry) ip_functions) api_functions))
       snk"

text \<open>
  Patching one module (the body of the loop of lines 293 to 375): \<open>code\<close> is the text of
  the file, the result is the text written back.
\<close>

definition patch_file ::
  "formatter \<Rightarrow> string dict \<Rightarrow> (field dict) dict \<Rightarrow> string \<Rightarrow> string \<Rightarrow> sink \<Rightarrow>
     error + string \<times> sink" where
  "patch_file black ip_functions ip_structs fname code snk =
     (let snk = print ([CHR 0x0A] @ ''### Check functions in '' @ fname) snk in
      bind (blacken black code True) (\<lambda>text.
      bind (detect_api_functions (scan_lines text)) (\<lambda>api_functions.
      bind (inject_idl fname ip_functions ip_structs api_functions (scan_lines text)) (\<lambda>res.
        (let snk = report_missing ip_functions api_functions (snd res) snk in
         bind (blacken black (join [CHR 0x0A] (fst res)) False) (\<lambda>code.
           Inr (code, print (''Injected IDL lines into '' @ fname) snk)))))))"

subsection \<open>The transformation of a member value in the words of the specification\<close>

text \<open>
  The specification words the transformation of lines 123 and 124 as "replace
  dimensionality markers 1d/2d/3d with D1/D2/D3, convert hyphen-separated words to
  concatenated capitalized words".  \<open>capitalized_words\<close> follows these words, to be
  compared with \<open>enum_hkey\<close>, which follows the code: the pieces between the hyphens, each
  with its first character in upper case and the others in lower case (\<open>str.capitalize\<close>),
  put together.
\<close>

definition capitalize :: "string \<Rightarrow> string" where
  "capitalize s = (case s of [] \<Rightarrow> [] | c # cs \<Rightarrow> upper_char c # map lower_char cs)"

definition capitalized_words :: "string \<Rightarrow> string" where
  "capitalized_words ikey =
     concat (map capitalize (split_sep ''-''
       (replace ''3d'' ''D3'' (replace ''2d'' ''D2'' (replace ''1d'' ''D1'' ikey)))))"

text \<open>The characters on which the case functions above are those of Python.\<close>

definition is_ascii :: "char \<Rightarrow> bool" where
  "is_ascii c = (of_char c < (128 :: nat))"

section \<open>Properties\<close>

subsection \<open>The enumeration loop\<close>

lemma set_update_subset: "set (AList.update k v al) \<subseteq> insert (k, v) (set al)"
  by (induction al) auto

lemma fst_enummap_member:
  "fst (enummap_member name henum ikey st) =
     fold (\<lambda>kv. AList.update (fst kv) (snd kv))
       (case map_of henum (enum_hkey ikey) of Some code \<Rightarrow> [(name @ ''.'' @ ikey, code)] | None \<Rightarrow> [])
       (fst st)"
  by (simp add: enummap_member_def split: option.splits)

lemma fst_fold_enummap_member:
  "fst (fold (enummap_member name henum) ikeys st) =
     fold (\<lambda>kv. AList.update (fst kv) (snd kv))
       (concat (map (\<lambda>ikey. case map_of henum (enum_hkey ikey) of
            Some code \<Rightarrow> [(name @ ''.'' @ ikey, code)] | None \<Rightarrow> []) ikeys))
       (fst st)"
  by (induction ikeys arbitrary: st) (simp_all add: fst_enummap_member)

lemma fst_enummap_loop:
  "fst (enummap_loop hp ip st) =
     fold (\<lambda>kv. AList.update (fst kv) (snd kv)) (enummap_assignments hp ip) (fst st)"
  unfolding enummap_loop_def enummap_assignments_def
  by (induction hp arbitrary: st)
     (simp_all add: enummap_enum_def fst_fold_enummap_member split: option.splits)

lemma snd_enummap_member:
  "snd (enummap_member name henum ikey st) =
     fold print
       (map (\<lambda>x. x @ '' is missing'')
         (case map_of henum (enum_hkey ikey) of Some code \<Rightarrow> [] | None \<Rightarrow> [name @ ''.'' @ ikey]))
       (snd st)"
  by (simp add: enummap_member_def split: option.splits)

lemma snd_fold_enummap_member:
  "snd (fold (enummap_member name henum) ikeys st) =
     fold print
       (map (\<lambda>x. x @ '' is missing'')
         (concat (map (\<lambda>ikey. case map_of henum (enum_hkey ikey) of
            Some code \<Rightarrow> [] | None \<Rightarrow> [name @ ''.'' @ ikey]) ikeys)))
       (snd st)"
  by (induction ikeys arbitrary: st) (simp_all add: snd_enummap_member)

lemma snd_enummap_loop:
  "snd (enummap_loop hp ip st) =
     fold print (map (\<lambda>x. x @ '' is missing'') (enummap_missing hp ip)) (snd st)"
  unfolding enummap_loop_def enummap_missing_def
  by (induction hp arbitrary: st)
     (simp_all add: enummap_enum_def snd_fold_enummap_member split: option.splits)

lemma stdout_fold_print: "stdout (fold print xs snk) = stdout snk @ xs"
  by (induction xs arbitrary: snk) (simp_all add: print_def)

lemma report_file_fold_print:
  "report_file (fold print xs snk) = report_file snk @ map report_line xs"
  by (induction xs arbitrary: snk) (simp_all add: print_def)

lemma map_of_fold_update:
  "map_of (fold (\<lambda>kv. AList.update (fst kv) (snd kv)) ups em) k =
     (case map_of (rev ups) k of Some v \<Rightarrow> Some v | None \<Rightarrow> map_of em k)"
  by (induction ups arbitrary: em) (auto simp: update_conv' map_add_def split: option.splits)

lemma set_fold_update:
  "set (fold (\<lambda>kv. AList.update (fst kv) (snd kv)) ups em) \<subseteq> set em \<union> set ups"
proof (induction ups arbitrary: em)
  case Nil
  then show ?case by simp
next
  case (Cons kv ups)
  have "set (AList.update (fst kv) (snd kv) em) \<subseteq> insert kv (set em)"
    using set_update_subset [of "fst kv" "snd kv" em] by simp
  with Cons [of "AList.update (fst kv) (snd kv) em"] show ?case by auto
qed

lemma in_concat_mapI: "x \<in> set xs \<Longrightarrow> y \<in> set (f x) \<Longrightarrow> y \<in> set (concat (map f xs))"
  by auto

lemma set_enummap_assignments:
  "(k, code) \<in> set (enummap_assignments hp ip) \<longleftrightarrow>
     (\<exists>name henum ienum m. (name, henum) \<in> set hp \<and> map_of ip name = Some ienum \<and>
        m \<in> snd ` set ienum \<and> k = name @ ''.'' @ m \<and> map_of henum (enum_hkey m) = Some code)"
  (is "?L \<longleftrightarrow> ?R")
proof
  assume ?L
  then obtain entry where e: "entry \<in> set hp"
    and k: "(k, code) \<in> set (case map_of ip (fst entry) of None \<Rightarrow> []
       | Some ienum \<Rightarrow> concat (map (\<lambda>ikey. case map_of (snd entry) (enum_hkey ikey) of
               Some code \<Rightarrow> [(fst entry @ ''.'' @ ikey, code)] | None \<Rightarrow> []) (map snd ienum)))"
    unfolding enummap_assignments_def by auto
  from k obtain ienum where i: "map_of ip (fst entry) = Some ienum"
    by (cases "map_of ip (fst entry)") auto
  from k i obtain m where m: "m \<in> snd ` set ienum"
    and km: "(k, code) \<in> set (case map_of (snd entry) (enum_hkey m) of
               Some code \<Rightarrow> [(fst entry @ ''.'' @ m, code)] | None \<Rightarrow> [])"
    by auto
  from km have "k = fst entry @ ''.'' @ m \<and> map_of (snd entry) (enum_hkey m) = Some code"
    by (cases "map_of (snd entry) (enum_hkey m)") auto
  with e i m show ?R
    by (intro exI [of _ "fst entry"] exI [of _ "snd entry"] exI [of _ ienum] exI [of _ m]) simp
next
  assume ?R
  then obtain name henum ienum m where h: "(name, henum) \<in> set hp" "map_of ip name = Some ienum"
    "m \<in> snd ` set ienum" "k = name @ ''.'' @ m" "map_of henum (enum_hkey m) = Some code"
    by blast
  have m': "m \<in> set (map snd ienum)" using h(3) by simp
  show ?L
    unfolding enummap_assignments_def
    apply (rule in_concat_mapI [OF h(1)])
    apply (simp only: fst_conv snd_conv h(2) option.case)
    apply (rule in_concat_mapI [OF m'])
    apply (simp add: h(4,5))
    done
qed

lemma set_enummap_missing:
  "x \<in> set (enummap_missing hp ip) \<longleftrightarrow>
     (\<exists>name henum ienum m. (name, henum) \<in> set hp \<and> map_of ip name = Some ienum \<and>
        m \<in> snd ` set ienum \<and> x = name @ ''.'' @ m \<and> map_of henum (enum_hkey m) = None)"
  (is "?L \<longleftrightarrow> ?R")
proof
  assume ?L
  then obtain entry where e: "entry \<in> set hp"
    and k: "x \<in> set (case map_of ip (fst entry) of None \<Rightarrow> []
       | Some ienum \<Rightarrow> concat (map (\<lambda>ikey. case map_of (snd entry) (enum_hkey ikey) of
               Some code \<Rightarrow> [] | None \<Rightarrow> [fst entry @ ''.'' @ ikey]) (map snd ienum)))"
    unfolding enummap_missing_def by auto
  from k obtain ienum where i: "map_of ip (fst entry) = Some ienum"
    by (cases "map_of ip (fst entry)") auto
  from k i obtain m where m: "m \<in> snd ` set ienum"
    and km: "x \<in> set (case map_of (snd entry) (enum_hkey m) of
               Some code \<Rightarrow> [] | None \<Rightarrow> [fst entry @ ''.'' @ m])"
    by auto
  from km have "x = fst entry @ ''.'' @ m \<and> map_of (snd entry) (enum_hkey m) = None"
    by (cases "map_of (snd entry) (enum_hkey m)") auto
  with e i m show ?R
    by (intro exI [of _ "fst entry"] exI [of _ "snd entry"] exI [of _ ienum] exI [of _ m]) simp
next
  assume ?R
  then obtain name henum ienum m where h: "(name, henum) \<in> set hp" "map_of ip name = Some ienum"
    "m \<in> snd ` set ienum" "x = name @ ''.'' @ m" "map_of henum (enum_hkey m) = None"
    by blast
  have m': "m \<in> set (map snd ienum)" using h(3) by simp
  show ?L
    unfolding enummap_missing_def
    apply (rule in_concat_mapI [OF h(1)])
    apply (simp only: fst_conv snd_conv h(2) option.case)
    apply (rule in_concat_mapI [OF m'])
    apply (simp add: h(4,5))
    done
qed

lemma map_of_unique:
  assumes "(k, v) \<in> set xs" and "\<And>v'. (k, v') \<in> set xs \<Longrightarrow> v' = v"
  shows "map_of xs k = Some v"
proof -
  from weak_map_of_SomeI [OF assms(1)] obtain v' where v': "map_of xs k = Some v'" ..
  from map_of_SomeD [OF v'] have "v' = v" by (rule assms(2))
  with v' show ?thesis by simp
qed

lemma takeWhile_dotted:
  "CHR ''.'' \<notin> set name \<Longrightarrow> takeWhile (\<lambda>c. c \<noteq> CHR ''.'') (name @ CHR ''.'' # m) = name"
  by (induction name) auto

lemma dotted_key_inj:
  assumes "CHR ''.'' \<notin> set name" "CHR ''.'' \<notin> set name'"
    and eq: "name @ ''.'' @ m = name' @ ''.'' @ m'"
  shows "name = name' \<and> m = m'"
proof -
  have "name = takeWhile (\<lambda>c. c \<noteq> CHR ''.'') (name @ ''.'' @ m)"
    using takeWhile_dotted [OF assms(1), of m] by simp
  also have "\<dots> = takeWhile (\<lambda>c. c \<noteq> CHR ''.'') (name' @ ''.'' @ m')"
    by (rule arg_cong [OF eq])
  also have "\<dots> = name'"
    using takeWhile_dotted [OF assms(2), of m'] by simp
  finally have n: "name = name'" .
  from eq have "m = m'" unfolding n by (simp only: same_append_eq list.inject simp_thms)
  with n show ?thesis by (rule conjI)
qed


lemma dict_entry_unique:
  "distinct (map fst d) \<Longrightarrow> (k, a) \<in> set d \<Longrightarrow> (k, b) \<in> set d \<Longrightarrow> a = b"
  by (rule eq_key_imp_eq_value)

lemma enummap_loop_entry:
  assumes dict: "distinct (map fst hp)"
    and nodot: "\<forall>n \<in> fst ` set hp \<inter> fst ` set ip. CHR ''.'' \<notin> set n"
    and entry: "(name, henum) \<in> set hp"
    and ienum: "map_of ip name = Some ienum"
    and m: "m \<in> snd ` set ienum"
    and code: "map_of henum (enum_hkey m) = Some code"
  shows "map_of (fst (enummap_loop hp ip (em, snk))) (name @ ''.'' @ m) = Some code"
proof -
  let ?ups = "enummap_assignments hp ip"
  let ?key = "name @ ''.'' @ m"
  have both: "n \<in> fst ` set hp \<inter> fst ` set ip"
    if "(n, h) \<in> set hp" "map_of ip n = Some i" for n h i
  proof -
    have "n \<in> fst ` set hp" using that(1) by force
    moreover have "n \<in> fst ` set ip" using map_of_SomeD [OF that(2)] by force
    ultimately show ?thesis by simp
  qed
  have name: "CHR ''.'' \<notin> set name"
    using nodot both [OF entry ienum] by blast
  have "(?key, code) \<in> set ?ups"
    unfolding set_enummap_assignments using entry ienum m code by blast
  then have in_rev: "(?key, code) \<in> set (rev ?ups)" by simp
  have uniq: "v' = code" if "(?key, v') \<in> set (rev ?ups)" for v'
  proof -
    from that have "(?key, v') \<in> set ?ups" by simp
    then obtain name' henum' ienum' m' where h: "(name', henum') \<in> set hp"
      "map_of ip name' = Some ienum'" "m' \<in> snd ` set ienum'" "?key = name' @ ''.'' @ m'"
      "map_of henum' (enum_hkey m') = Some v'"
      unfolding set_enummap_assignments by blast
    have name': "CHR ''.'' \<notin> set name'"
      using nodot both [OF h(1,2)] by blast
    from dotted_key_inj [OF name name' h(4)] have eq: "name' = name" "m' = m" by simp_all
    from h(1) have "(name, henum') \<in> set hp" unfolding eq .
    from dict_entry_unique [OF dict this entry] have "henum' = henum" .
    with h(5) code show ?thesis unfolding eq by simp
  qed
  have "map_of (rev ?ups) ?key = Some code"
    using in_rev uniq by (rule map_of_unique)
  then show ?thesis
    by (simp add: fst_enummap_loop map_of_fold_update)
qed

lemma enummap_loop_missing:
  assumes entry: "(name, henum) \<in> set hp"
    and ienum: "map_of ip name = Some ienum"
    and m: "m \<in> snd ` set ienum"
    and code: "map_of henum (enum_hkey m) = None"
  shows "name @ ''.'' @ m @ '' is missing'' \<in> set (stdout (snd (enummap_loop hp ip st)))"
    and "report_line (name @ ''.'' @ m @ '' is missing'')
           \<in> set (report_file (snd (enummap_loop hp ip st)))"
proof -
  have "name @ ''.'' @ m \<in> set (enummap_missing hp ip)"
    unfolding set_enummap_missing using assms by blast
  then have *: "name @ ''.'' @ m @ '' is missing''
      \<in> set (map (\<lambda>x. x @ '' is missing'') (enummap_missing hp ip))"
    by force
  show "name @ ''.'' @ m @ '' is missing'' \<in> set (stdout (snd (enummap_loop hp ip st)))"
    using * by (simp only: snd_enummap_loop stdout_fold_print set_append Un_iff simp_thms)
  have "report_line (name @ ''.'' @ m @ '' is missing'')
      \<in> set (map report_line (map (\<lambda>x. x @ '' is missing'') (enummap_missing hp ip)))"
    using * by (simp only: set_map) (rule imageI)
  then show "report_line (name @ ''.'' @ m @ '' is missing'')
           \<in> set (report_file (snd (enummap_loop hp ip st)))"
    by (simp only: snd_enummap_loop report_file_fold_print set_append Un_iff simp_thms)
qed

lemma enum_hkey_low_power: "enum_hkey ''low-power'' = ''LowPower''"
  by code_simp

lemma enum_hkey_high_performance: "enum_hkey ''high-performance'' = ''HighPerformance''"
  by code_simp

lemma enummap_power_preference:
  "enummap_loop
     [(''PowerPreference'', [(''LowPower'', a), (''HighPerformance'', b)])]
     [(''PowerPreference'', [(k1, ''low-power''), (k2, ''high-performance'')])] ([], snk) =
   ([(''PowerPreference.low-power'', a), (''PowerPreference.high-performance'', b)], snk)"
  by (simp add: enummap_loop_def enummap_enum_def enummap_member_def
      enum_hkey_low_power enum_hkey_high_performance)

text \<open>
  Claim C1, with the transformation of the code.  Let \<open>hp\<close> be a dict, and let no
  enumeration name that is in both catalogs contain a dot (the names are identifiers), so
  that a key \<open>"<EnumName>.<m>"\<close> names one enumeration.  For an enumeration \<open>name\<close> of
  both catalogs and a member value \<open>m\<close> of it in the interface catalog that is ASCII
  text: when \<open>enum_hkey m\<close> is a key of the native enumeration, the final table maps
  \<open>"<name>.<m>"\<close> to the code stored under it; otherwise \<open>"<name>.<m> is missing"\<close> is
  printed, to standard output and (as a bullet) to the report.  \<open>enum_hkey\<close> is the
  transformation of lines 123 and 124: after the three replacements the hyphens become
  spaces, \<open>str.title\<close> puts the first letter of every run of letters in upper case and
  the other letters in lower case, and the spaces are removed.  The enumeration
  PowerPreference with the values low-power and high-performance, against the native
  members LowPower and HighPerformance catalogued under the same name, gives exactly
  the two entries and prints nothing.
\<close>

theorem enummap_entry_or_missing:
  assumes "distinct (map fst hp)"
    and "\<forall>n \<in> fst ` set hp \<inter> fst ` set ip. CHR ''.'' \<notin> set n"
    and "(name, henum) \<in> set hp"
    and "map_of ip name = Some ienum"
    and "m \<in> snd ` set ienum"
    and "\<forall>c \<in> set m. is_ascii c"
  shows "(case map_of henum (enum_hkey m) of
            Some code \<Rightarrow>
              map_of (fst (enummap_loop hp ip ([], snk))) (name @ ''.'' @ m) = Some code
          | None \<Rightarrow>
              name @ ''.'' @ m @ '' is missing''
                \<in> set (stdout (snd (enummap_loop hp ip ([], snk)))) \<and>
              report_line (name @ ''.'' @ m @ '' is missing'')
                \<in> set (report_file (snd (enummap_loop hp ip ([], snk))))) \<and>
         enummap_loop
           [(''PowerPreference'', [(''LowPower'', a), (''HighPerformance'', b)])]
           [(''PowerPreference'', [(k1, ''low-power''), (k2, ''high-performance'')])]
           ([], snk) =
         ([(''PowerPreference.low-power'', a), (''PowerPreference.high-performance'', b)], snk)"
proof (rule conjI)
  show "case map_of henum (enum_hkey m) of
            Some code \<Rightarrow>
              map_of (fst (enummap_loop hp ip ([], snk))) (name @ ''.'' @ m) = Some code
          | None \<Rightarrow>
              name @ ''.'' @ m @ '' is missing''
                \<in> set (stdout (snd (enummap_loop hp ip ([], snk)))) \<and>
              report_line (name @ ''.'' @ m @ '' is missing'')
                \<in> set (report_file (snd (enummap_loop hp ip ([], snk))))"
  proof (cases "map_of henum (enum_hkey m)")
    case None
    with enummap_loop_missing [OF assms(3,4,5) None, of "([], snk)"] show ?thesis
      by simp
  next
    case (Some code)
    with enummap_loop_entry [OF assms(1,2,3,4,5) Some, of "[]" snk] show ?thesis
      by simp
  qed
next
  show "enummap_loop
           [(''PowerPreference'', [(''LowPower'', a), (''HighPerformance'', b)])]
           [(''PowerPreference'', [(k1, ''low-power''), (k2, ''high-performance'')])]
           ([], snk) =
         ([(''PowerPreference.low-power'', a), (''PowerPreference.high-performance'', b)], snk)"
    by (rule enummap_power_preference)
qed

text \<open>
  The theorem at a texture-dimension enumeration: the value 2d is found as D2, the
  value 3d has no native member D3 and is reported.
\<close>

theorem enummap_entry_or_missing_witness:
  "map_of (fst (enummap_loop
       [(''TextureDimension'', [(''D1'', 0), (''D2'', 1)])]
       [(''TextureDimension'', [(''d1'', ''1d''), (''d2'', ''2d''), (''d3'', ''3d'')])]
       ([], \<lparr>stdout = [], report_file = []\<rparr>))) ''TextureDimension.2d'' = Some 1 \<and>
   ''TextureDimension.3d is missing'' \<in> set (stdout (snd (enummap_loop
       [(''TextureDimension'', [(''D1'', 0), (''D2'', 1)])]
       [(''TextureDimension'', [(''d1'', ''1d''), (''d2'', ''2d''), (''d3'', ''3d'')])]
       ([], \<lparr>stdout = [], report_file = []\<rparr>))))"
proof -
  let ?hp = "[(''TextureDimension'', [(''D1'', 0::int), (''D2'', 1)])]"
  let ?ip = "[(''TextureDimension'', [(''d1'', ''1d''), (''d2'', ''2d''), (''d3'', ''3d'')])]"
  have d: "distinct (map fst ?hp)" by simp
  have n: "\<forall>n \<in> fst ` set ?hp \<inter> fst ` set ?ip. CHR ''.'' \<notin> set n" by simp
  have e: "(''TextureDimension'', [(''D1'', 0::int), (''D2'', 1)]) \<in> set ?hp" by simp
  have i: "map_of ?ip ''TextureDimension'' =
      Some [(''d1'', ''1d''), (''d2'', ''2d''), (''d3'', ''3d'')]" by simp
  have m2: "''2d'' \<in> snd ` set [(''d1'', ''1d''), (''d2'', ''2d''), (''d3'', ''3d'')]" by simp
  have m3: "''3d'' \<in> snd ` set [(''d1'', ''1d''), (''d2'', ''2d''), (''d3'', ''3d'')]" by simp
  have k2: "enum_hkey ''2d'' = ''D2''" by code_simp
  have k3: "enum_hkey ''3d'' = ''D3''" by code_simp
  have a2: "\<forall>c \<in> set ''2d''. is_ascii c" by (simp add: is_ascii_def)
  have a3: "\<forall>c \<in> set ''3d''. is_ascii c" by (simp add: is_ascii_def)
  from enummap_entry_or_missing [OF d n e i m2 a2, of "\<lparr>stdout = [], report_file = []\<rparr>"]
  have a: "map_of (fst (enummap_loop ?hp ?ip ([], \<lparr>stdout = [], report_file = []\<rparr>)))
      ''TextureDimension.2d'' = Some 1"
    by (simp add: k2)
  from enummap_entry_or_missing [OF d n e i m3 a3, of "\<lparr>stdout = [], report_file = []\<rparr>"]
  have b: "''TextureDimension.3d is missing'' \<in> set (stdout (snd (enummap_loop ?hp ?ip
      ([], \<lparr>stdout = [], report_file = []\<rparr>))))"
    by (simp add: k3)
  from a b show ?thesis by (rule conjI)
qed

text \<open>
  The claim as it is written fails at a texture format.  The value \<open>rgba8unorm\<close> is one
  word without a hyphen, and capitalized it is \<open>Rgba8unorm\<close>, which is no member of the
  native enumeration: by the claim the member is reported as missing.  The code writes
  \<open>Rgba8Unorm\<close>, since \<open>str.title\<close> starts a new word after the digit, finds the native
  member and stores the entry, and prints nothing.  (Leaving the characters after the
  first as they are gives \<open>Rgba8unorm\<close> as well.)
\<close>

theorem enummap_capitalized_words_counterexample:
  "capitalized_words ''rgba8unorm'' = ''Rgba8unorm'' \<and>
   map_of [(''Rgba8Unorm'', 18 :: int)] (capitalized_words ''rgba8unorm'') = None \<and>
   enummap_loop [(''TextureFormat'', [(''Rgba8Unorm'', 18)])]
     [(''TextureFormat'', [(''rgba8unorm'', ''rgba8unorm'')])]
     ([], \<lparr>stdout = [], report_file = []\<rparr>) =
   ([(''TextureFormat.rgba8unorm'', 18)], \<lparr>stdout = [], report_file = []\<rparr>)"
proof -
  have c: "capitalized_words ''rgba8unorm'' = ''Rgba8unorm''" by code_simp
  have k: "enum_hkey ''rgba8unorm'' = ''Rgba8Unorm''" by code_simp
  show ?thesis
    by (simp add: c enummap_loop_def enummap_enum_def enummap_member_def k)
qed

text \<open>
  Claim C7: every entry of the table built by the loop is \<open>"<name>.<m>"\<close> for an
  enumeration \<open>name\<close> that the native and the interface catalog both have and a member value
  \<open>m\<close> of it in the interface catalog, and it maps to the code the native enumeration of
  that name stores (under \<open>enum_hkey m\<close>).  So nothing is entered for an enumeration that
  one of the catalogs lacks.
\<close>

theorem enummap_entries_in_both_catalogs:
  "\<forall>(key, code) \<in> set (fst (enummap_loop hp ip ([], snk))).
     \<exists>name henum ienum m.
       key = name @ ''.'' @ m \<and> (name, henum) \<in> set hp \<and> map_of ip name = Some ienum \<and>
       m \<in> snd ` set ienum \<and> map_of henum (enum_hkey m) = Some code"
proof (rule ballI)
  fix kv
  assume kv: "kv \<in> set (fst (enummap_loop hp ip ([], snk)))"
  obtain key code where eq: "kv = (key, code)" by (cases kv)
  have "set (fst (enummap_loop hp ip ([], snk))) \<subseteq> set (enummap_assignments hp ip)"
    using set_fold_update [of "enummap_assignments hp ip" "[]"]
    by (simp add: fst_enummap_loop)
  with kv eq have "(key, code) \<in> set (enummap_assignments hp ip)" by (simp add: subset_iff)
  then have "\<exists>name henum ienum m.
       key = name @ ''.'' @ m \<and> (name, henum) \<in> set hp \<and> map_of ip name = Some ienum \<and>
       m \<in> snd ` set ienum \<and> map_of henum (enum_hkey m) = Some code"
    unfolding set_enummap_assignments by (elim exE conjE) (intro exI conjI, assumption+)
  then show "case kv of (key, code) \<Rightarrow>
     \<exists>name henum ienum m.
       key = name @ ''.'' @ m \<and> (name, henum) \<in> set hp \<and> map_of ip name = Some ienum \<and>
       m \<in> snd ` set ienum \<and> map_of henum (enum_hkey m) = Some code"
    unfolding eq by (simp only: prod.case)
qed

theorem enummap_entries_in_both_catalogs_witness:
  "(''PowerPreference.low-power'', 1) \<in> set (fst (enummap_loop
       [(''PowerPreference'', [(''LowPower'', 1), (''HighPerformance'', 2)])]
       [(''PowerPreference'', [(''low_power'', ''low-power''),
                               (''high_performance'', ''high-performance'')])]
       ([], \<lparr>stdout = [], report_file = []\<rparr>))) \<and>
   (\<exists>name henum ienum m.
       ''PowerPreference.low-power'' = name @ ''.'' @ m \<and>
       (name, henum) \<in> set [(''PowerPreference'', [(''LowPower'', 1), (''HighPerformance'', 2)])] \<and>
       map_of [(''PowerPreference'', [(''low_power'', ''low-power''),
                               (''high_performance'', ''high-performance'')])] name = Some ienum \<and>
       m \<in> snd ` set ienum \<and> map_of henum (enum_hkey m) = Some (1::int))"
proof -
  let ?hp = "[(''PowerPreference'', [(''LowPower'', 1::int), (''HighPerformance'', 2)])]"
  let ?ip = "[(''PowerPreference'', [(''low_power'', ''low-power''),
                               (''high_performance'', ''high-performance'')])]"
  let ?snk = "\<lparr>stdout = [], report_file = []\<rparr>"
  have mem: "(''PowerPreference.low-power'', 1) \<in> set (fst (enummap_loop ?hp ?ip ([], ?snk)))"
    by (simp add: enummap_power_preference)
  from bspec [OF enummap_entries_in_both_catalogs [of ?hp ?ip ?snk] mem]
  have "\<exists>name henum ienum m.
       ''PowerPreference.low-power'' = name @ ''.'' @ m \<and> (name, henum) \<in> set ?hp \<and>
       map_of ?ip name = Some ienum \<and> m \<in> snd ` set ienum \<and>
       map_of henum (enum_hkey m) = Some (1::int)"
    by (simp only: prod.case)
  with mem show ?thesis by (rule conjI)
qed

subsection \<open>Matching a function identifier\<close>

lemma first_key_in_find: "first_key_in xs d = find (\<lambda>k. k \<in> fst ` set d) xs"
  by (induction xs) simp_all

text \<open>
  Claim C5: the result of \<open>get_func_id_match\<close> is the first of the three identifiers
  \<open>func_id\<close>, \<open>func_id\<close> without \<open>"async"\<close>, \<open>func_id\<close> with \<open>"async"\<close> appended that is a key of
  \<open>d\<close>, and it is \<open>None\<close> when none of the three is a key.
\<close>

theorem get_func_id_match_first:
  "(case get_func_id_match func_id d of
      Some m \<Rightarrow>
        \<exists>i<3. m = [func_id, replace ''async'' [] func_id, func_id @ ''async''] ! i \<and>
               m \<in> fst ` set d \<and>
               (\<forall>j<i. [func_id, replace ''async'' [] func_id, func_id @ ''async''] ! j
                         \<notin> fst ` set d)
    | None \<Rightarrow>
        \<forall>t \<in> set [func_id, replace ''async'' [] func_id, func_id @ ''async'']. t \<notin> fst ` set d)"
proof (cases "get_func_id_match func_id d")
  case None
  then have "find (\<lambda>k. k \<in> fst ` set d) (func_id_tries func_id) = None"
    by (simp add: get_func_id_match_def first_key_in_find)
  then have "\<forall>t \<in> set (func_id_tries func_id). t \<notin> fst ` set d"
    by (simp only: find_None_iff) blast
  with None show ?thesis by (simp add: func_id_tries_def)
next
  case (Some m)
  then have "find (\<lambda>k. k \<in> fst ` set d) (func_id_tries func_id) = Some m"
    by (simp add: get_func_id_match_def first_key_in_find)
  then obtain i where i: "i < length (func_id_tries func_id)"
    "func_id_tries func_id ! i \<in> fst ` set d" "m = func_id_tries func_id ! i"
    "\<forall>j<i. func_id_tries func_id ! j \<notin> fst ` set d"
    unfolding find_Some_iff by blast
  have len: "length (func_id_tries func_id) = 3" by (simp add: func_id_tries_def)
  have "i < 3 \<and> m = func_id_tries func_id ! i \<and> m \<in> fst ` set d \<and>
      (\<forall>j<i. func_id_tries func_id ! j \<notin> fst ` set d)"
    using i len by simp
  then have "\<exists>i<3. m = func_id_tries func_id ! i \<and> m \<in> fst ` set d \<and>
      (\<forall>j<i. func_id_tries func_id ! j \<notin> fst ` set d)"
    by (intro exI [of _ i])
  with Some show ?thesis by (simp only: func_id_tries_def option.case)
qed

text \<open>
  At \<open>requestadapterasync\<close> against a table that has \<open>requestadapter\<close> only, the match is
  the second identifier tried.
\<close>

theorem get_func_id_match_first_witness:
  "get_func_id_match ''requestadapterasync'' [(''requestadapter'', ''line'')]
     = Some ''requestadapter'' \<and>
   (\<exists>i<3. ''requestadapter'' =
       [''requestadapterasync'', replace ''async'' [] ''requestadapterasync'',
        ''requestadapterasync'' @ ''async''] ! i \<and>
     ''requestadapter'' \<in> fst ` set [(''requestadapter'', ''line'')] \<and>
     (\<forall>j<i. [''requestadapterasync'', replace ''async'' [] ''requestadapterasync'',
        ''requestadapterasync'' @ ''async''] ! j \<notin> fst ` set [(''requestadapter'', ''line'')]))"
proof -
  have r: "replace ''async'' [] ''requestadapterasync'' = ''requestadapter''"
    by code_simp
  have m: "get_func_id_match ''requestadapterasync'' [(''requestadapter'', ''line'')]
     = Some ''requestadapter''"
    by (simp add: get_func_id_match_def func_id_tries_def r)
  from get_func_id_match_first [of "''requestadapterasync''" "[(''requestadapter'', ''line'')]"]
  have "\<exists>i<3. ''requestadapter'' =
       [''requestadapterasync'', replace ''async'' [] ''requestadapterasync'',
        ''requestadapterasync'' @ ''async''] ! i \<and>
     ''requestadapter'' \<in> fst ` set [(''requestadapter'', ''line'')] \<and>
     (\<forall>j<i. [''requestadapterasync'', replace ''async'' [] ''requestadapterasync'',
        ''requestadapterasync'' @ ''async''] ! j \<notin> fst ` set [(''requestadapter'', ''line'')])"
    by (simp only: m option.case)
  with m show ?thesis by (rule conjI)
qed

subsection \<open>The formatting step\<close>

subsection \<open>Comparing the structures\<close>

lemma compare_struct_report:
  "compare_struct ip entry snk = fold print (struct_report ip entry) snk"
  by (simp add: compare_struct_def struct_report_def Let_def split: option.splits)

lemma compare_structs_report:
  "compare_structs hp ip snk = fold print (concat (map (struct_report ip) hp)) snk"
  unfolding compare_structs_def
  by (induction hp arbitrary: snk) (simp_all add: compare_struct_report)

lemma struct_report_heading:
  assumes "'' '' @ name \<in> set (struct_report ip entry)"
  shows "fst entry = name \<and>
    (\<exists>istruct. map_of ip name = Some istruct \<and>
       struct_keys3 (map fst (snd entry)) \<noteq> struct_keys4 (map fst istruct))"
proof (cases "map_of ip (fst entry)")
  case None
  with assms show ?thesis by (simp add: struct_report_def)
next
  case (Some istruct)
  show ?thesis
  proof (cases "struct_keys3 (map fst (snd entry)) \<noteq> struct_keys4 (map fst istruct)")
    case True
    with Some assms have "fst entry = name" by (simp add: struct_report_def)
    with Some True show ?thesis by simp
  next
    case False
    with Some assms show ?thesis by (simp add: struct_report_def)
  qed
qed

text \<open>
  Claim C6: for a structure \<open>name\<close> of both catalogs, the loop prints the report of
  \<open>name\<close> (the heading \<open>" <name>"\<close>, then \<open>"c: "\<close> with the list of the native field names,
  then \<open>"i: "\<close> with the list of the interface field names) if and only if the two
  sets of normalised field names differ.
\<close>

theorem compare_structs_report_iff:
  assumes "distinct (map fst hp)"
    and "(name, hstruct) \<in> set hp"
    and "map_of ip name = Some istruct"
  shows "(\<exists>pre post. stdout (compare_structs hp ip snk) =
            stdout snk @ pre @
              ['' '' @ name, ''c: '' @ str_list (map fst hstruct),
               ''i: '' @ str_list (map fst istruct)] @ post) \<longleftrightarrow>
         set (map (\<lambda>key. replace ''_'' [] (replace ''_length'' [] (lower key))) (map fst hstruct))
           - {''todo''} \<noteq>
         set (map lower (map fst istruct)) - {''label''}"
    (is "?printed \<longleftrightarrow> ?differ")
proof
  assume ?printed
  then obtain pre post where
    "stdout snk @ concat (map (struct_report ip) hp) =
       stdout snk @ pre @ ['' '' @ name, ''c: '' @ str_list (map fst hstruct),
               ''i: '' @ str_list (map fst istruct)] @ post"
    by (auto simp: compare_structs_report stdout_fold_print)
  then have "concat (map (struct_report ip) hp) =
       pre @ ['' '' @ name, ''c: '' @ str_list (map fst hstruct),
               ''i: '' @ str_list (map fst istruct)] @ post"
    by (simp only: same_append_eq)
  then have "'' '' @ name \<in> set (concat (map (struct_report ip) hp))"
    by simp
  then obtain entry where entry: "entry \<in> set hp" "'' '' @ name \<in> set (struct_report ip entry)"
    by auto
  from struct_report_heading [OF entry(2)] obtain istruct' where h: "fst entry = name"
    "map_of ip name = Some istruct'"
    "struct_keys3 (map fst (snd entry)) \<noteq> struct_keys4 (map fst istruct')"
    by blast
  from entry(1) h(1) have "(name, snd entry) \<in> set hp" by (metis prod.collapse)
  from eq_key_imp_eq_value [OF assms(1) this assms(2)] have "snd entry = hstruct" .
  moreover from h(2) assms(3) have "istruct' = istruct" by simp
  ultimately show ?differ using h(3) by (simp add: struct_keys3_def struct_keys4_def)
next
  assume ?differ
  then have r: "struct_report ip (name, hstruct) =
      ['' '' @ name, ''c: '' @ str_list (map fst hstruct), ''i: '' @ str_list (map fst istruct)]"
    using assms(3) by (simp add: struct_report_def struct_keys3_def struct_keys4_def)
  from split_list [OF assms(2)] obtain xs ys where hp: "hp = xs @ (name, hstruct) # ys" by blast
  have "concat (map (struct_report ip) hp) =
      concat (map (struct_report ip) xs) @
        ['' '' @ name, ''c: '' @ str_list (map fst hstruct),
         ''i: '' @ str_list (map fst istruct)] @ concat (map (struct_report ip) ys)"
    by (simp add: hp r)
  then have "stdout (compare_structs hp ip snk) =
      stdout snk @ concat (map (struct_report ip) xs) @
        ['' '' @ name, ''c: '' @ str_list (map fst hstruct),
         ''i: '' @ str_list (map fst istruct)] @ concat (map (struct_report ip) ys)"
    by (simp only: compare_structs_report stdout_fold_print)
  then show ?printed by blast
qed

text \<open>
  A native structure with the fields \<open>todo\<close>, \<open>entries\<close> and \<open>entries_length\<close> against the
  interface fields \<open>label\<close> and \<open>entries\<close>: the sets agree and nothing is printed.
\<close>

theorem compare_structs_report_iff_witness:
  "\<not> (\<exists>pre post. stdout (compare_structs
          [(''BindGroupDescriptor'', [(''todo'', ()), (''entries'', ()), (''entries_length'', ())])]
          [(''BindGroupDescriptor'', [(''label'', ()), (''entries'', ())])]
          \<lparr>stdout = [], report_file = []\<rparr>) =
        stdout \<lparr>stdout = [], report_file = []\<rparr> @ pre @
          ['' '' @ ''BindGroupDescriptor'',
           ''c: '' @ str_list (map fst [(''todo'', ()), (''entries'', ()), (''entries_length'', ())]),
           ''i: '' @ str_list (map fst [(''label'', ()), (''entries'', ())])] @ post)"
proof -
  let ?h = "[(''todo'', ()), (''entries'', ()), (''entries_length'', ())]"
  let ?i = "[(''label'', ()), (''entries'', ())]"
  have d: "distinct (map fst [(''BindGroupDescriptor'', ?h)])" by simp
  have e: "(''BindGroupDescriptor'', ?h) \<in> set [(''BindGroupDescriptor'', ?h)]" by simp
  have m: "map_of [(''BindGroupDescriptor'', ?i)] ''BindGroupDescriptor'' = Some ?i" by simp
  have k3: "map (\<lambda>key. replace ''_'' [] (replace ''_length'' [] (lower key))) (map fst ?h) =
      [''todo'', ''entries'', ''entries'']"
    by code_simp
  have k4: "map lower (map fst ?i) = [''label'', ''entries'']" by code_simp
  have same: "set (map (\<lambda>key. replace ''_'' [] (replace ''_length'' [] (lower key))) (map fst ?h))
           - {''todo''} = set (map lower (map fst ?i)) - {''label''}"
    unfolding k3 k4 by (simp add: insert_Diff_if)
  from compare_structs_report_iff [OF d e m, of "\<lparr>stdout = [], report_file = []\<rparr>"] same
  show ?thesis by (simp only: simp_thms)
qed

subsection \<open>The generated containers Flags and Enum\<close>

lemma setattrs_fold:
  "setattrs kwargs self = Inr self1 \<Longrightarrow>
     self1 = fold (\<lambda>kv. AList.update (fst kv) (snd kv))
               (map (\<lambda>kv. (fst kv, Member (snd kv))) kwargs) self"
proof (induction kwargs arbitrary: self)
  case Nil
  then show ?case by simp
next
  case (Cons kv kwargs)
  then show ?case
    by (cases "setattr (fst kv) (Member (snd kv)) self")
       (auto simp: setattr_def split: if_splits)
qed

lemma class_dir_underscore: "filter (\<lambda>key. \<not> startswith key ''_'') class_dir = []"
  by (simp add: class_dir_def startswith_def)

lemma sort_remdups_cong: "set xs = set ys \<Longrightarrow> sort (remdups xs) = sort (remdups ys)"
  by (simp add: sorted_list_of_set_sort_remdups [symmetric])

lemma map_fst_sort_key:
  assumes "distinct (map fst zs)"
  shows "map fst (sort_key fst zs) = sort (map fst zs)"
proof (rule sorted_distinct_set_unique)
  show "sorted (map fst (sort_key fst zs))" by (rule sorted_sort_key)
  have "distinct zs" "inj_on fst (set zs)" using assms by (simp_all add: distinct_map)
  then show "distinct (map fst (sort_key fst zs))" by (simp add: distinct_map)
  show "sorted (sort (map fst zs))" by simp
  show "distinct (sort (map fst zs))" using assms by simp
  show "set (map fst (sort_key fst zs)) = set (sort (map fst zs))" by simp
qed

lemma getattrs_members:
  "(\<And>kv. kv \<in> set zs \<Longrightarrow> map_of self (fst kv) = Some (Member (snd kv))) \<Longrightarrow>
     getattrs self (map fst zs) = Inr (map (\<lambda>kv. Member (snd kv)) zs)"
  by (induction zs) (simp_all add: getattr_def)

lemma container_init_lookup:
  assumes d: "distinct (map fst kwargs)"
    and init: "container_init name kwargs = Inr self"
  shows "fst ` set self = insert ''_name'' (fst ` set kwargs)"
    and "(key, val) \<in> set kwargs \<Longrightarrow> map_of self key = Some (Member val)"
proof -
  let ?kw = "map (\<lambda>kv. (fst kv, Member (snd kv))) kwargs"
  have self: "self = fold (\<lambda>kv. AList.update (fst kv) (snd kv)) ?kw [(''_name'', Name name)]"
    using init unfolding container_init_def by (rule setattrs_fold)
  have m: "map_of self k =
      (case map_of (rev ?kw) k of Some v \<Rightarrow> Some v
       | None \<Rightarrow> map_of [(''_name'', Name name)] k)" for k
    unfolding self by (rule map_of_fold_update)
  have "dom (map_of self) = insert ''_name'' (dom (map_of (rev ?kw)))"
    by (auto simp: m dom_def split: option.splits if_splits)
  moreover have "dom (map_of (rev ?kw)) = fst ` set kwargs"
    by (simp add: dom_map_of_conv_image_fst image_image)
  ultimately show "fst ` set self = insert ''_name'' (fst ` set kwargs)"
    by (simp add: dom_map_of_conv_image_fst)
  assume kv: "(key, val) \<in> set kwargs"
  have dk: "distinct (map fst (rev ?kw))"
    using d by (simp add: rev_map [symmetric] comp_def)
  have "(key, Member val) \<in> set (rev ?kw)" using kv by force
  with dk have "map_of (rev ?kw) key = Some (Member val)" by simp
  then show "map_of self key = Some (Member val)" by (simp add: m)
qed

lemma container_dir_public:
  assumes d: "distinct (map fst kwargs)"
    and init: "container_init name kwargs = Inr self"
  shows "filter (\<lambda>key. \<not> startswith key ''_'') (dir_names self) =
         sort (filter (\<lambda>key. \<not> startswith key ''_'') (map fst kwargs))"
proof -
  let ?P = "\<lambda>key. \<not> startswith key ''_''"
  have "filter ?P (dir_names self) = sort (remdups (filter ?P (map fst self)))"
    by (simp add: dir_names_def filter_sort remdups_filter [symmetric] class_dir_underscore)
  also have "set (filter ?P (map fst self)) = set (filter ?P (map fst kwargs))"
    using container_init_lookup(1) [OF d init] by (auto simp: startswith_def)
  then have "sort (remdups (filter ?P (map fst self))) =
      sort (remdups (filter ?P (map fst kwargs)))"
    by (rule sort_remdups_cong)
  also have "remdups (filter ?P (map fst kwargs)) = filter ?P (map fst kwargs)"
    using d by (simp add: distinct_remdups_id)
  finally show ?thesis .
qed

lemma flags_iter_example:
  "container_init ''BufferUsage'' [(''MAP_WRITE'', 2::int), (''MAP_READ'', 1)] =
     Inr [(''_name'', Name ''BufferUsage''), (''MAP_WRITE'', Member 2), (''MAP_READ'', Member 1)]"
  by (simp add: container_init_def setattr_def)

text \<open>
  Claim C10.  For a container made by \<open>Flags(name, **kwargs)\<close> or \<open>Enum(name, **kwargs)\<close>:
  iterating a Flags container gives the member names that do not start with an
  underscore in sorted order, and iterating an Enum container gives the values of those
  members, in the sorted order of their names.  The two lines the script writes for the
  flag set BufferUsage with MAP_WRITE before MAP_READ keep that order; iterating the
  container gives MAP_READ first.
\<close>

theorem container_iter_sorted_by_name:
  assumes "distinct (map fst kwargs)"
    and "container_init name kwargs = Inr self"
  shows "Flags_iter self = sort (filter (\<lambda>key. \<not> startswith key ''_'') (map fst kwargs)) \<and>
         Enum_iter self =
           Inr (map (\<lambda>kv. Member (snd kv))
                  (sort_key fst (filter (\<lambda>kv. \<not> startswith (fst kv) ''_'') kwargs))) \<and>
         flags_pylines (''BufferUsage'', [(''MAP_WRITE'', 2), (''MAP_READ'', 1)]) =
           [''BufferUsage = Flags('' @ [CHR 0x0A] @ ''    '' @ [CHR 0x22] @ ''BufferUsage'' @
              [CHR 0x22] @ '','',
            ''    MAP_WRITE=2,'', ''    MAP_READ=1,'', '')'' @ [CHR 0x0A]] \<and>
         Flags_iter [(''_name'', Name ''BufferUsage''), (''MAP_WRITE'', Member (2::int)),
                     (''MAP_READ'', Member 1)] = [''MAP_READ'', ''MAP_WRITE'']"
proof (intro conjI)
  let ?P = "\<lambda>key. \<not> startswith key ''_''"
  let ?zs = "filter (\<lambda>kv. ?P (fst kv)) kwargs"
  show "Flags_iter self = sort (filter ?P (map fst kwargs))"
    unfolding Flags_iter_def by (rule container_dir_public [OF assms])
  have dz: "distinct (map fst ?zs)" using assms(1) by (simp add: distinct_map_filter)
  have keys: "filter ?P (map fst kwargs) = map fst ?zs"
    by (simp add: filter_map comp_def)
  have "map fst (sort_key fst ?zs) = sort (map fst ?zs)"
    using dz by (rule map_fst_sort_key)
  then have "Enum_iter self = getattrs self (map fst (sort_key fst ?zs))"
    unfolding Enum_iter_def by (simp only: container_dir_public [OF assms] keys)
  also have "\<dots> = Inr (map (\<lambda>kv. Member (snd kv)) (sort_key fst ?zs))"
  proof (rule getattrs_members)
    fix kv assume "kv \<in> set (sort_key fst ?zs)"
    then have "(fst kv, snd kv) \<in> set kwargs" by simp
    then show "map_of self (fst kv) = Some (Member (snd kv))"
      by (rule container_init_lookup(2) [OF assms])
  qed
  finally show "Enum_iter self = Inr (map (\<lambda>kv. Member (snd kv)) (sort_key fst ?zs))" .
  show "flags_pylines (''BufferUsage'', [(''MAP_WRITE'', 2), (''MAP_READ'', 1)]) =
           [''BufferUsage = Flags('' @ [CHR 0x0A] @ ''    '' @ [CHR 0x22] @ ''BufferUsage'' @
              [CHR 0x22] @ '','',
            ''    MAP_WRITE=2,'', ''    MAP_READ=1,'', '')'' @ [CHR 0x0A]]"
    by code_simp
  show "Flags_iter [(''_name'', Name ''BufferUsage''), (''MAP_WRITE'', Member (2::int)),
                     (''MAP_READ'', Member 1)] = [''MAP_READ'', ''MAP_WRITE'']"
    by code_simp
qed

theorem container_iter_sorted_by_name_witness:
  "container_init ''BufferUsage'' [(''MAP_WRITE'', 2::int), (''MAP_READ'', 1)] =
     Inr [(''_name'', Name ''BufferUsage''), (''MAP_WRITE'', Member 2), (''MAP_READ'', Member 1)] \<and>
   Enum_iter [(''_name'', Name ''BufferUsage''), (''MAP_WRITE'', Member (2::int)),
              (''MAP_READ'', Member 1)] = Inr [Member 1, Member 2]"
proof -
  have d: "distinct (map fst [(''MAP_WRITE'', 2::int), (''MAP_READ'', 1)])" by simp
  have s: "sort_key fst (filter (\<lambda>kv. \<not> startswith (fst kv) ''_'')
      [(''MAP_WRITE'', 2::int), (''MAP_READ'', 1)]) = [(''MAP_READ'', 1), (''MAP_WRITE'', 2)]"
    by code_simp
  from container_iter_sorted_by_name [OF d flags_iter_example, THEN conjunct2, THEN conjunct1]
  have "Enum_iter [(''_name'', Name ''BufferUsage''), (''MAP_WRITE'', Member (2::int)),
              (''MAP_READ'', Member 1)] = Inr [Member 1, Member 2]"
    unfolding s by simp
  with flags_iter_example show ?thesis by (rule conjI)
qed

subsection \<open>Patching the hand-written modules\<close>

lemma bind_Inr [simp]: "bind (Inr x) f = f x"
  by (simp add: bind_def)

lemma bind_Inl [simp]: "bind (Inl e) f = Inl e"
  by (simp add: bind_def)

lemma traverse_last_of_last2:
  "traverse (\<lambda>arg. py_last2 (g arg)) args = Inr ts \<Longrightarrow>
     \<exists>ns. traverse (\<lambda>arg. py_last (g arg)) args = Inr ns"
proof (induction args arbitrary: ts)
  case Nil
  then show ?case by simp
next
  case (Cons arg args)
  from Cons.prems obtain t ts' where t: "py_last2 (g arg) = Inr t"
    and ts': "traverse (\<lambda>arg. py_last2 (g arg)) args = Inr ts'"
    by (cases "py_last2 (g arg)"; cases "traverse (\<lambda>arg. py_last2 (g arg)) args") simp_all
  from t have "g arg \<noteq> []" by (auto simp: py_last2_def split: if_splits)
  then have "py_last (g arg) = Inr (last (g arg))" by (simp add: py_last_def)
  moreover from Cons.IH [OF ts'] obtain ns where
    "traverse (\<lambda>arg. py_last (g arg)) args = Inr ns" ..
  ultimately show ?case by simp
qed

lemma idl_argnames_of_argtypes:
  "idl_argtypes args = Inr ts \<Longrightarrow> \<exists>ns. idl_argnames args = Inr ns"
  unfolding idl_argtypes_def idl_argnames_def by (rule traverse_last_of_last2)

lemma list_insert_nth_Suc: "i < length xs \<Longrightarrow> list_insert i x xs ! Suc i = xs ! i"
  by (simp add: list_insert_def nth_append min_def nth_Cons')

lemma length_list_insert [simp]: "length (list_insert i x xs) = Suc (length xs)"
  by (simp add: list_insert_def)

lemma inject_no_match:
  "no_match (fst entry) ip_functions \<Longrightarrow> inject fname ip_functions ip_structs entry st = Inr st"
  by (simp add: inject_def no_match_def split: option.splits)

lemma inject_matched:
  assumes "get_func_id_match func_id ip_functions = Some func_id_match"
    and "func_id_match \<noteq> []"
    and "map_of ip_functions func_id_match = Some line"
    and "i < length api_lines"
    and "idl_args line = Inr args"
    and "idl_argnames args = Inr argnames"
    and "idl_argtypes args = Inr argtypes"
  shows "inject fname ip_functions ip_structs (func_id, funcname, i, indent) (api_lines, count) =
     bind (signature_args ip_structs func_id argnames argtypes) (\<lambda>py_args.
       Inr (list_insert i
              (replicate indent CHR '' '' @ ''# wgpu.help('' @
                 join '', '' (map (\<lambda>x. [CHR 0x27] @ x @ [CHR 0x27])
                   ([func_id_match] @
                    map (drop 3) (filter (\<lambda>arg. startswith arg ''GPU'') argtypes))) @
                 '', dev=True)'')
              ((if fname = ''base.py''
                then list_insert i (replicate indent CHR '' '' @ ''# IDL: '' @ line)
                else (\<lambda>ls. ls))
                 (api_lines[i := hd (split_sep ''('' (api_lines ! i)) @ ''('' @
                                   join '', '' py_args @ ''):''])),
            count + 1))"
  using assms by (simp add: inject_def py_lookup_def py_get_def Let_def)

lemma signature_args_descriptor:
  assumes "endswith argtype ''Options'' \<or> endswith argtype ''Descriptor''"
  shows "signature_args ip_structs func_id argnames [argtype] =
     (if \<not> startswith argtype ''GPU'' then Inl AssertionError
      else case map_of ip_structs (drop 3 argtype) of
             None \<Rightarrow> Inl (KeyError (drop 3 argtype))
           | Some arg_struct \<Rightarrow>
               if arg_struct = [] then Inl IndexError
               else Inr ((if contains ''requestadapter'' func_id then [''*'']
                          else [''self'', ''*'']) @
                         (if field_py_arg (snd (hd arg_struct)) = ''label: str''
                          then (''label='' @ [CHR 0x22, CHR 0x22]) #
                               map (\<lambda>kv. field_py_arg (snd kv)) (tl arg_struct)
                          else map (\<lambda>kv. field_py_arg (snd kv)) arg_struct)))"
proof (cases "startswith argtype ''GPU''")
  case False
  with assms show ?thesis by (simp add: signature_args_def)
next
  case True
  show ?thesis
  proof (cases "map_of ip_structs (drop 3 argtype)")
    case None
    with True assms show ?thesis by (simp add: signature_args_def py_lookup_def)
  next
    case (Some arg_struct)
    show ?thesis
    proof (cases arg_struct)
      case Nil
      with Some True assms show ?thesis
        by (simp add: signature_args_def py_lookup_def py_get_def)
    next
      case (Cons kv rest)
      with Some True assms show ?thesis
        by (simp add: signature_args_def py_lookup_def py_get_def Let_def)
    qed
  qed
qed


lemma report_missing_unknown:
  assumes "(func_id, funcname, i, indent) \<in> set api_functions"
    and "no_match func_id ip_functions"
  shows "''Found unknown function '' @ funcname
           \<in> set (stdout (report_missing ip_functions api_functions count snk))"
proof -
  have "(func_id, funcname, i, indent)
      \<in> set (filter (\<lambda>entry. no_match (fst entry) ip_functions) api_functions)"
    using assms by simp
  then have "''Found unknown function '' @ fst (snd (func_id, funcname, i, indent))
      \<in> set (map (\<lambda>entry. ''Found unknown function '' @ fst (snd entry))
          (filter (\<lambda>entry. no_match (fst entry) ip_functions) api_functions))"
    unfolding set_map by (rule imageI)
  then show ?thesis
    by (simp add: report_missing_def stdout_fold_print)
qed

text \<open>
  Claim C2, as the code does it.  Let a hand-written function be matched, and let the
  matched declaration have exactly one parameter, of a type that ends in Options or
  Descriptor, that begins with GPU and that, without these three characters, names a
  structure of \<open>ip.structs\<close> with at least one field.  Then the step succeeds and the
  signature line becomes the text before its first parenthesis, followed by the
  parameter list: \<open>self, *\<close> (only \<open>*\<close> when \<open>func_id\<close> contains \<open>requestadapter\<close>) and the
  rendering of every field, the first one replaced by \<open>label=""\<close> when it is \<open>label: str\<close>.
  The line stands below the one or two comment lines inserted at its old position.
  For the structure BufferDescriptor with the renderings \<open>label: str\<close> and \<open>size\<close> and the
  method \<open>createBuffer\<close> of \<open>GPUDevice\<close> in base.py, the parameter list is
  \<open>self, *, label="", size\<close>.
\<close>

theorem inject_expands_descriptor:
  assumes "get_func_id_match func_id ip_functions = Some func_id_match"
    and "func_id_match \<noteq> []"
    and "map_of ip_functions func_id_match = Some line"
    and "i < length api_lines"
    and "idl_args line = Inr args"
    and "idl_argtypes args = Inr [argtype]"
    and "endswith argtype ''Options'' \<or> endswith argtype ''Descriptor''"
    and "startswith argtype ''GPU''"
    and "map_of ip_structs (drop 3 argtype) = Some arg_struct"
    and "arg_struct \<noteq> []"
  shows "(\<exists>api_lines1.
            inject fname ip_functions ip_structs (func_id, funcname, i, indent) (api_lines, count)
              = Inr (api_lines1, count + 1) \<and>
            api_lines1 ! (i + (if fname = ''base.py'' then 2 else 1)) =
              hd (split_sep ''('' (api_lines ! i)) @ ''('' @
              join '', ''
                ((if contains ''requestadapter'' func_id then [''*''] else [''self'', ''*'']) @
                 (if field_py_arg (snd (hd arg_struct)) = ''label: str''
                  then (''label='' @ [CHR 0x22, CHR 0x22]) #
                       map (\<lambda>kv. field_py_arg (snd kv)) (tl arg_struct)
                  else map (\<lambda>kv. field_py_arg (snd kv)) arg_struct)) @
              ''):'') \<and>
         bind (detect_api_functions
                 [''class GPUDevice:'', ''    def createBuffer(self, descriptor):'',
                  ''        pass'', []])
           (\<lambda>api_functions.
              inject_idl ''base.py''
                [(''devicecreatebuffer'',
                  ''GPUBuffer createBuffer(GPUBufferDescriptor descriptor);'')]
                [(''BufferDescriptor'',
                  [(''label'', \<lparr>field_name = ''label'', field_typename = ''DOMString'',
                                field_py_arg = ''label: str''\<rparr>),
                   (''size'', \<lparr>field_name = ''size'', field_typename = ''GPUSize64'',
                               field_py_arg = ''size''\<rparr>)])]
                api_functions
                [''class GPUDevice:'', ''    def createBuffer(self, descriptor):'',
                 ''        pass'', []]) =
         Inr ([''class GPUDevice:'',
               ''    # wgpu.help('devicecreatebuffer', 'BufferDescriptor', dev=True)'',
               ''    # IDL: GPUBuffer createBuffer(GPUBufferDescriptor descriptor);'',
               ''    def createBuffer(self, *, label='' @ [CHR 0x22, CHR 0x22] @ '', size):'',
               ''        pass'', []], 1)"
proof (rule conjI)
  let ?sig = "hd (split_sep ''('' (api_lines ! i)) @ ''('' @
              join '', ''
                ((if contains ''requestadapter'' func_id then [''*''] else [''self'', ''*'']) @
                 (if field_py_arg (snd (hd arg_struct)) = ''label: str''
                  then (''label='' @ [CHR 0x22, CHR 0x22]) #
                       map (\<lambda>kv. field_py_arg (snd kv)) (tl arg_struct)
                  else map (\<lambda>kv. field_py_arg (snd kv)) arg_struct)) @
              ''):''"
  from idl_argnames_of_argtypes [OF assms(6)] obtain argnames where
    names: "idl_argnames args = Inr argnames" ..
  have sig: "signature_args ip_structs func_id argnames [argtype] =
      Inr ((if contains ''requestadapter'' func_id then [''*''] else [''self'', ''*'']) @
           (if field_py_arg (snd (hd arg_struct)) = ''label: str''
            then (''label='' @ [CHR 0x22, CHR 0x22]) #
                 map (\<lambda>kv. field_py_arg (snd kv)) (tl arg_struct)
            else map (\<lambda>kv. field_py_arg (snd kv)) arg_struct))"
    using assms(8,9,10) by (simp add: signature_args_descriptor [OF assms(7)])
  have upd: "length (api_lines[i := ?sig]) = length api_lines" "api_lines[i := ?sig] ! i = ?sig"
    using assms(4) by simp_all
  show "\<exists>api_lines1.
            inject fname ip_functions ip_structs (func_id, funcname, i, indent) (api_lines, count)
              = Inr (api_lines1, count + 1) \<and>
            api_lines1 ! (i + (if fname = ''base.py'' then 2 else 1)) = ?sig"
  proof (cases "fname = ''base.py''")
    case True
    have "list_insert i x (list_insert i y (api_lines[i := ?sig])) ! (i + 2) = ?sig" for x y
      using assms(4) upd by (simp add: list_insert_def nth_append min_def nth_Cons')
    with True show ?thesis
      by (simp add: inject_matched [OF assms(1-5) names assms(6)] sig)
  next
    case False
    have "list_insert i x (api_lines[i := ?sig]) ! (i + 1) = ?sig" for x
      using assms(4) upd by (simp add: list_insert_def nth_append min_def nth_Cons')
    with False show ?thesis
      by (simp add: inject_matched [OF assms(1-5) names assms(6)] sig)
  qed
next
  show "bind (detect_api_functions
                 [''class GPUDevice:'', ''    def createBuffer(self, descriptor):'',
                  ''        pass'', []])
           (\<lambda>api_functions.
              inject_idl ''base.py''
                [(''devicecreatebuffer'',
                  ''GPUBuffer createBuffer(GPUBufferDescriptor descriptor);'')]
                [(''BufferDescriptor'',
                  [(''label'', \<lparr>field_name = ''label'', field_typename = ''DOMString'',
                                field_py_arg = ''label: str''\<rparr>),
                   (''size'', \<lparr>field_name = ''size'', field_typename = ''GPUSize64'',
                               field_py_arg = ''size''\<rparr>)])]
                api_functions
                [''class GPUDevice:'', ''    def createBuffer(self, descriptor):'',
                 ''        pass'', []]) =
         Inr ([''class GPUDevice:'',
               ''    # wgpu.help('devicecreatebuffer', 'BufferDescriptor', dev=True)'',
               ''    # IDL: GPUBuffer createBuffer(GPUBufferDescriptor descriptor);'',
               ''    def createBuffer(self, *, label='' @ [CHR 0x22, CHR 0x22] @ '', size):'',
               ''        pass'', []], 1)"
    by code_simp
qed

text \<open>
  The theorem at the method \<open>createBuffer\<close> in backend/rs.py, where one comment line is
  inserted.
\<close>

theorem inject_expands_descriptor_witness:
  "\<exists>api_lines1.
     inject ''backend/rs.py''
       [(''devicecreatebuffer'', ''GPUBuffer createBuffer(GPUBufferDescriptor descriptor);'')]
       [(''BufferDescriptor'',
         [(''label'', \<lparr>field_name = ''label'', field_typename = ''DOMString'',
                       field_py_arg = ''label: str''\<rparr>),
          (''size'', \<lparr>field_name = ''size'', field_typename = ''GPUSize64'',
                      field_py_arg = ''size''\<rparr>)])]
       (''devicecreatebuffer'', ''GPUDevice.createBuffer'', 1, 4)
       ([''class GPUDevice:'', ''    def createBuffer(self, descriptor):'', ''        pass'', []],
        0) = Inr (api_lines1, 0 + 1) \<and>
     api_lines1 ! 2 =
       ''    def createBuffer(self, *, label='' @ [CHR 0x22, CHR 0x22] @ '', size):''"
proof -
  let ?F = "[(''devicecreatebuffer'', ''GPUBuffer createBuffer(GPUBufferDescriptor descriptor);'')]"
  let ?label = "\<lparr>field_name = ''label'', field_typename = ''DOMString'',
                       field_py_arg = ''label: str''\<rparr>"
  let ?size = "\<lparr>field_name = ''size'', field_typename = ''GPUSize64'',
                      field_py_arg = ''size''\<rparr>"
  let ?S = "[(''BufferDescriptor'', [(''label'', ?label), (''size'', ?size)])]"
  let ?L = "[''class GPUDevice:'', ''    def createBuffer(self, descriptor):'', ''        pass'', []]"
  have h1: "get_func_id_match ''devicecreatebuffer'' ?F = Some ''devicecreatebuffer''"
    by (simp add: get_func_id_match_def func_id_tries_def)
  have h2: "''devicecreatebuffer'' \<noteq> []" by simp
  have h3: "map_of ?F ''devicecreatebuffer'' =
      Some ''GPUBuffer createBuffer(GPUBufferDescriptor descriptor);''" by simp
  have h4: "1 < length ?L" by simp
  have h5: "idl_args ''GPUBuffer createBuffer(GPUBufferDescriptor descriptor);'' =
      Inr [''GPUBufferDescriptor descriptor'']" by code_simp
  have h6: "idl_argtypes [''GPUBufferDescriptor descriptor''] = Inr [''GPUBufferDescriptor'']"
    by code_simp
  have h7: "endswith ''GPUBufferDescriptor'' ''Options'' \<or>
      endswith ''GPUBufferDescriptor'' ''Descriptor''" by code_simp
  have h8: "startswith ''GPUBufferDescriptor'' ''GPU''" by code_simp
  have h9: "map_of ?S (drop 3 ''GPUBufferDescriptor'') =
      Some [(''label'', ?label), (''size'', ?size)]" by simp
  have h10: "[(''label'', ?label), (''size'', ?size)] \<noteq> []" by simp
  have sig: "hd (split_sep ''('' (?L ! 1)) @ ''('' @
      join '', ''
        ((if contains ''requestadapter'' ''devicecreatebuffer'' then [''*''] else [''self'', ''*'']) @
         (if field_py_arg (snd (hd [(''label'', ?label), (''size'', ?size)])) = ''label: str''
          then (''label='' @ [CHR 0x22, CHR 0x22]) #
               map (\<lambda>kv. field_py_arg (snd kv)) (tl [(''label'', ?label), (''size'', ?size)])
          else map (\<lambda>kv. field_py_arg (snd kv)) [(''label'', ?label), (''size'', ?size)])) @
      ''):'' = ''    def createBuffer(self, *, label='' @ [CHR 0x22, CHR 0x22] @ '', size):''"
    by code_simp
  have idx: "1 + (if ''backend/rs.py'' = ''base.py'' then 2 else 1) = (2::nat)" by simp
  from inject_expands_descriptor [OF h1 h2 h3 h4 h5 h6 h7 h8 h9 h10, THEN conjunct1,
      of "''backend/rs.py''" "''GPUDevice.createBuffer''" 4 0]
  show ?thesis
    unfolding sig idx .
qed

text \<open>
  The claim as it is written holds for no declaration whose single parameter has a type
  without the prefix, a type that \<open>ip.structs\<close> lacks, or a structure without fields: the
  step ends the run with the assertion, a \<open>KeyError\<close> or an \<open>IndexError\<close>.
\<close>

theorem inject_descriptor_counterexample:
  "bind (idl_args ''GPUBuffer createBuffer(BufferDescriptor descriptor);'') idl_argtypes
     = Inr [''BufferDescriptor''] \<and>
   endswith ''BufferDescriptor'' ''Descriptor'' \<and>
   inject ''base.py''
     [(''devicecreatebuffer'', ''GPUBuffer createBuffer(BufferDescriptor descriptor);'')]
     [(''BufferDescriptor'',
       [(''label'', \<lparr>field_name = ''label'', field_typename = ''DOMString'',
                     field_py_arg = ''label: str''\<rparr>),
        (''size'', \<lparr>field_name = ''size'', field_typename = ''GPUSize64'',
                    field_py_arg = ''size''\<rparr>)])]
     (''devicecreatebuffer'', ''GPUDevice.createBuffer'', 1, 4)
     ([''class GPUDevice:'', ''    def createBuffer(self, descriptor):'', ''        pass'', []], 0)
     = Inl AssertionError \<and>
   inject ''base.py''
     [(''devicecreatebuffer'', ''GPUBuffer createBuffer(GPUBufferDescriptor descriptor);'')]
     []
     (''devicecreatebuffer'', ''GPUDevice.createBuffer'', 1, 4)
     ([''class GPUDevice:'', ''    def createBuffer(self, descriptor):'', ''        pass'', []], 0)
     = Inl (KeyError ''BufferDescriptor'') \<and>
   inject ''base.py''
     [(''devicecreatebuffer'', ''GPUBuffer createBuffer(GPUBufferDescriptor descriptor);'')]
     [(''BufferDescriptor'', [])]
     (''devicecreatebuffer'', ''GPUDevice.createBuffer'', 1, 4)
     ([''class GPUDevice:'', ''    def createBuffer(self, descriptor):'', ''        pass'', []], 0)
     = Inl IndexError"
  by code_simp

text \<open>
  Claim C3, as the code does it.  An identifier without a match in \<open>ip.functions\<close> never
  ends the run: the step leaves the lines and the count as they are, and the function is
  reported as unknown.  For a matched identifier whose declaration has exactly one
  parameter, of a type that ends in Options or Descriptor, the step ends the run with an
  \<open>AssertionError\<close> when the type does not begin with GPU, and with a \<open>KeyError\<close> when
  \<open>ip.structs\<close> has no entry for the type without its first three characters.
\<close>

theorem inject_lookup_failures:
  "(get_func_id_match func_id ip_functions = None \<longrightarrow>
      inject fname ip_functions ip_structs (func_id, funcname, i, indent) st = Inr st \<and>
      ((func_id, funcname, i, indent) \<in> set api_functions \<longrightarrow>
         ''Found unknown function '' @ funcname
           \<in> set (stdout (report_missing ip_functions api_functions count snk)))) \<and>
   (get_func_id_match func_id ip_functions = Some func_id_match \<and> func_id_match \<noteq> [] \<and>
    map_of ip_functions func_id_match = Some line \<and> i < length api_lines \<and>
    idl_args line = Inr args \<and> idl_argtypes args = Inr [argtype] \<and>
    (endswith argtype ''Options'' \<or> endswith argtype ''Descriptor'') \<longrightarrow>
      (\<not> startswith argtype ''GPU'' \<longrightarrow>
         inject fname ip_functions ip_structs (func_id, funcname, i, indent) (api_lines, n)
           = Inl AssertionError) \<and>
      (startswith argtype ''GPU'' \<and> map_of ip_structs (drop 3 argtype) = None \<longrightarrow>
         inject fname ip_functions ip_structs (func_id, funcname, i, indent) (api_lines, n)
           = Inl (KeyError (drop 3 argtype))))"
proof (intro conjI impI)
  assume none: "get_func_id_match func_id ip_functions = None"
  then have nm: "no_match func_id ip_functions" by (simp add: no_match_def)
  then show "inject fname ip_functions ip_structs (func_id, funcname, i, indent) st = Inr st"
    by (simp add: inject_no_match)
  assume "(func_id, funcname, i, indent) \<in> set api_functions"
  then show "''Found unknown function '' @ funcname
           \<in> set (stdout (report_missing ip_functions api_functions count snk))"
    using nm by (rule report_missing_unknown)
next
  assume h: "get_func_id_match func_id ip_functions = Some func_id_match \<and> func_id_match \<noteq> [] \<and>
    map_of ip_functions func_id_match = Some line \<and> i < length api_lines \<and>
    idl_args line = Inr args \<and> idl_argtypes args = Inr [argtype] \<and>
    (endswith argtype ''Options'' \<or> endswith argtype ''Descriptor'')"
  then obtain argnames where names: "idl_argnames args = Inr argnames"
    using idl_argnames_of_argtypes by blast
  have step: "inject fname ip_functions ip_structs (func_id, funcname, i, indent) (api_lines, n) =
      Inl e" if "signature_args ip_structs func_id argnames [argtype] = Inl e" for e
    using h names that by (simp add: inject_matched [where args = args])
  {
    assume "\<not> startswith argtype ''GPU''"
    then have "signature_args ip_structs func_id argnames [argtype] = Inl AssertionError"
      using h by (simp add: signature_args_descriptor)
    then show "inject fname ip_functions ip_structs (func_id, funcname, i, indent) (api_lines, n)
           = Inl AssertionError"
      by (rule step)
  }
  {
    assume "startswith argtype ''GPU'' \<and> map_of ip_structs (drop 3 argtype) = None"
    then have "signature_args ip_structs func_id argnames [argtype] =
        Inl (KeyError (drop 3 argtype))"
      using h by (simp add: signature_args_descriptor)
    then show "inject fname ip_functions ip_structs (func_id, funcname, i, indent) (api_lines, n)
           = Inl (KeyError (drop 3 argtype))"
      by (rule step)
  }
qed

theorem inject_lookup_failures_witness:
  "inject ''base.py''
     [(''devicecreatebuffer'', ''GPUBuffer createBuffer(GPUBufferDescriptor descriptor);'')] []
     (''devicehelper'', ''GPUDevice.helper'', 3, 4)
     ([''class GPUDevice:'', ''    def createBuffer(self, descriptor):'', ''        pass'',
       ''    def helper(self):'', ''        pass'', []], 0) =
   Inr ([''class GPUDevice:'', ''    def createBuffer(self, descriptor):'', ''        pass'',
       ''    def helper(self):'', ''        pass'', []], 0) \<and>
   ''Found unknown function GPUDevice.helper'' \<in> set (stdout (report_missing
     [(''devicecreatebuffer'', ''GPUBuffer createBuffer(GPUBufferDescriptor descriptor);'')]
     [(''devicecreatebuffer'', ''GPUDevice.createBuffer'', 1, 4),
      (''devicehelper'', ''GPUDevice.helper'', 3, 4)] 0 \<lparr>stdout = [], report_file = []\<rparr>)) \<and>
   inject ''base.py''
     [(''devicecreatebuffer'', ''GPUBuffer createBuffer(GPUBufferDescriptor descriptor);'')] []
     (''devicecreatebuffer'', ''GPUDevice.createBuffer'', 1, 4)
     ([''class GPUDevice:'', ''    def createBuffer(self, descriptor):'', ''        pass'',
       ''    def helper(self):'', ''        pass'', []], 0) =
   Inl (KeyError (drop 3 ''GPUBufferDescriptor''))"
proof -
  let ?F = "[(''devicecreatebuffer'', ''GPUBuffer createBuffer(GPUBufferDescriptor descriptor);'')]"
  let ?L = "[''class GPUDevice:'', ''    def createBuffer(self, descriptor):'', ''        pass'',
       ''    def helper(self):'', ''        pass'', []]"
  let ?A = "[(''devicecreatebuffer'', ''GPUDevice.createBuffer'', 1::nat, 4::nat),
      (''devicehelper'', ''GPUDevice.helper'', 3, 4)]"
  have r: "replace ''async'' [] ''devicehelper'' = ''devicehelper''" by code_simp
  have n: "get_func_id_match ''devicehelper'' ?F = None"
    by (simp add: get_func_id_match_def func_id_tries_def r)
  have a: "(''devicehelper'', ''GPUDevice.helper'', 3, 4) \<in> set ?A" by simp
  have h: "get_func_id_match ''devicecreatebuffer'' ?F = Some ''devicecreatebuffer'' \<and>
      ''devicecreatebuffer'' \<noteq> [] \<and>
      map_of ?F ''devicecreatebuffer'' =
        Some ''GPUBuffer createBuffer(GPUBufferDescriptor descriptor);'' \<and>
      1 < length ?L \<and>
      idl_args ''GPUBuffer createBuffer(GPUBufferDescriptor descriptor);'' =
        Inr [''GPUBufferDescriptor descriptor''] \<and>
      idl_argtypes [''GPUBufferDescriptor descriptor''] = Inr [''GPUBufferDescriptor''] \<and>
      (endswith ''GPUBufferDescriptor'' ''Options'' \<or>
       endswith ''GPUBufferDescriptor'' ''Descriptor'')"
    by code_simp
  have g: "startswith ''GPUBufferDescriptor'' ''GPU'' \<and>
      map_of ([] :: (field dict) dict) (drop 3 ''GPUBufferDescriptor'') = None"
    by code_simp
  note t1 = inject_lookup_failures [of "''devicehelper''" ?F "''base.py''" "[]"
      "''GPUDevice.helper''" 3 4 "(?L, 0)" ?A 0 "\<lparr>stdout = [], report_file = []\<rparr>",
      THEN conjunct1, rule_format, OF n]
  note t2 = inject_lookup_failures [of "''devicecreatebuffer''" ?F "''base.py''" "[]"
      "''GPUDevice.createBuffer''" 1 4 _ _ _ _ "''devicecreatebuffer''"
      "''GPUBuffer createBuffer(GPUBufferDescriptor descriptor);''" ?L
      "[''GPUBufferDescriptor descriptor'']" "''GPUBufferDescriptor''" 0,
      THEN conjunct2, rule_format, OF h, THEN conjunct2, rule_format, OF g]
  from t1 have "inject ''base.py'' ?F [] (''devicehelper'', ''GPUDevice.helper'', 3, 4) (?L, 0)
      = Inr (?L, 0)"
    by (rule conjunct1)
  moreover from t1 a have "''Found unknown function GPUDevice.helper''
      \<in> set (stdout (report_missing ?F ?A 0 \<lparr>stdout = [], report_file = []\<rparr>))"
    by simp
  ultimately show ?thesis using t2 by (intro conjI)
qed

text \<open>
  A run on a module whose one function is matched, with a struct table that lacks the
  structure of its parameter: the lookup fails and the run ends with the \<open>KeyError\<close>.
\<close>

theorem patch_file_lookup_counterexample:
  "patch_file quiet_black
     [(''devicecreatebuffer'', ''GPUBuffer createBuffer(GPUBufferDescriptor descriptor);'')] []
     ''base.py''
     (join [CHR 0x0A]
        [''class GPUDevice:'', ''    def createBuffer(self, descriptor):'', ''        pass'', []])
     \<lparr>stdout = [], report_file = []\<rparr> = Inl (KeyError ''BufferDescriptor'')"
proof -
  let ?F = "[(''devicecreatebuffer'', ''GPUBuffer createBuffer(GPUBufferDescriptor descriptor);'')]"
  let ?L = "[''class GPUDevice:'', ''    def createBuffer(self, descriptor):'', ''        pass'', []]"
  let ?code = "join [CHR 0x0A] ?L"
  have c1: "remove_noqas ?code = join [CHR 0x0A] (butlast ?L)" by code_simp
  have c2: "\<not> contains ''error'' (lower ''reformatted -'')" by code_simp
  have c3: "join_signatures (join [CHR 0x0A] (butlast ?L)) = join [CHR 0x0A] (butlast ?L)"
    by code_simp
  have b: "blacken quiet_black ?code True = Inr (join [CHR 0x0A] (butlast ?L))"
    unfolding blacken_def Let_def quiet_black_def fst_conv snd_conv if_True c1 c3
    using c2 by (simp only: if_False)
  have s: "scan_lines (join [CHR 0x0A] (butlast ?L)) = ?L" by code_simp
  have d: "detect_api_functions ?L =
      Inr [(''devicecreatebuffer'', ''GPUDevice.createBuffer'', 1, 4)]" by code_simp
  have i: "inject_idl ''base.py'' ?F [] [(''devicecreatebuffer'', ''GPUDevice.createBuffer'', 1, 4)]
      ?L = Inl (KeyError ''BufferDescriptor'')" by code_simp
  show ?thesis
    unfolding patch_file_def Let_def b bind_Inr s d i bind_Inl ..
qed

subsection \<open>The formatting step in a run\<close>

text \<open>
  Claim C4, as the code decides it.  A call of \<open>blacken\<close> raises, with the formatter's
  log as the message, exactly when the lower-cased log has the substring \<open>error\<close>;
  otherwise it returns the reformatted text (with the long signatures joined when
  \<open>singleline\<close> is set).  Nothing catches the error: when the first or the last call of
  \<open>blacken\<close> in the patching of a module raises, the patching ends with that error.
\<close>

theorem blacken_raises_iff_error_in_log:
  "(case blacken black src singleline of
      Inl e \<Rightarrow>
        contains ''error'' (lower (snd (black (if singleline then 9999999 else 88)
                                         (if singleline then remove_noqas src else src)))) \<and>
        e = RuntimeError (snd (black (if singleline then 9999999 else 88)
                                 (if singleline then remove_noqas src else src)))
    | Inr code \<Rightarrow>
        \<not> contains ''error'' (lower (snd (black (if singleline then 9999999 else 88)
                                           (if singleline then remove_noqas src else src)))) \<and>
        code = (if singleline
                then join_signatures (fst (black 9999999 (remove_noqas src)))
                else fst (black 88 src))) \<and>
   (blacken black code True = Inl e \<longrightarrow>
      patch_file black ip_functions ip_structs fname code snk = Inl e) \<and>
   (blacken black code True = Inr text \<and>
    detect_api_functions (scan_lines text) = Inr api_functions \<and>
    inject_idl fname ip_functions ip_structs api_functions (scan_lines text) = Inr res \<and>
    blacken black (join [CHR 0x0A] (fst res)) False = Inl e \<longrightarrow>
      patch_file black ip_functions ip_structs fname code snk = Inl e)"
proof (intro conjI impI)
  show "case blacken black src singleline of
      Inl e \<Rightarrow>
        contains ''error'' (lower (snd (black (if singleline then 9999999 else 88)
                                         (if singleline then remove_noqas src else src)))) \<and>
        e = RuntimeError (snd (black (if singleline then 9999999 else 88)
                                 (if singleline then remove_noqas src else src)))
    | Inr code \<Rightarrow>
        \<not> contains ''error'' (lower (snd (black (if singleline then 9999999 else 88)
                                           (if singleline then remove_noqas src else src)))) \<and>
        code = (if singleline
                then join_signatures (fst (black 9999999 (remove_noqas src)))
                else fst (black 88 src))"
    by (simp add: blacken_def Let_def)
next
  assume "blacken black code True = Inl e"
  then show "patch_file black ip_functions ip_structs fname code snk = Inl e"
    by (simp add: patch_file_def Let_def)
next
  assume "blacken black code True = Inr text \<and>
    detect_api_functions (scan_lines text) = Inr api_functions \<and>
    inject_idl fname ip_functions ip_structs api_functions (scan_lines text) = Inr res \<and>
    blacken black (join [CHR 0x0A] (fst res)) False = Inl e"
  then show "patch_file black ip_functions ip_structs fname code snk = Inl e"
    by (simp add: patch_file_def Let_def)
qed

text \<open>With a formatter that reports a parse error the patching of base.py ends with
  its message.\<close>

theorem blacken_raises_iff_error_in_log_witness:
  "blacken failing_black ''x ='' True =
     Inl (RuntimeError ''error: cannot format -: Cannot parse: 1:0: x ='') \<and>
   patch_file failing_black [] [] ''base.py'' ''x ='' \<lparr>stdout = [], report_file = []\<rparr> =
     Inl (RuntimeError ''error: cannot format -: Cannot parse: 1:0: x ='')"
proof -
  have c: "contains ''error'' (lower ''error: cannot format -: Cannot parse: 1:0: x ='')"
    by code_simp
  have b: "blacken failing_black ''x ='' True =
     Inl (RuntimeError ''error: cannot format -: Cannot parse: 1:0: x ='')"
    unfolding blacken_def Let_def failing_black_def fst_conv snd_conv
    using c by (simp only: if_True)
  from blacken_raises_iff_error_in_log [THEN conjunct2, THEN conjunct1, rule_format, OF b]
  have "patch_file failing_black [] [] ''base.py'' ''x ='' \<lparr>stdout = [], report_file = []\<rparr> =
     Inl (RuntimeError ''error: cannot format -: Cannot parse: 1:0: x ='')" .
  with b show ?thesis by (rule conjI)
qed

text \<open>
  A log that is not empty does not stop the run by itself: with the notice
  \<open>reformatted -\<close> on standard error the text is returned.
\<close>

theorem blacken_log_counterexample:
  "snd (quiet_black 88 ''x = 1'') \<noteq> [] \<and> blacken quiet_black ''x = 1'' False = Inr ''x = 1''"
proof -
  have "\<not> contains ''error'' (lower ''reformatted -'')" by code_simp
  then show ?thesis by (simp add: blacken_def quiet_black_def)
qed

subsection \<open>Functions without a match\<close>




end
